theory Spec2Isabelle
  imports Complex_Main "HOL-Library.AList"
begin

section \<open>Errors raised by the network worker\<close>

text \<open>
  The worker signals failure by throwing. Every throw of the modelled code is a value of
  this type: \<open>Cancellation\<close> is the dedicated signal of \<open>~Generic/lib/errors\<close>,
  \<open>RequestFailedError\<close> carries the target URL and the HTTP status,
  \<open>TypeError\<close> is the runtime's error for a method call on \<open>undefined\<close>, and
  \<open>Rejected\<close> stands for an error thrown by a collaborator outside these files (a failed
  fetch, a queue timeout, a body that does not parse, an identifier the SDK refuses).
\<close>

datatype error =
  Cancellation string
  | RequestFailedError string nat
  | TypeError
  | Rejected string

section \<open>The optimistic update ledger (lib/optimistic-updates)\<close>

text \<open>
  \<open>interface OptimisticUpdate<T>\<close>: a pure overlay function together with the account it
  affects, the endpoint it was submitted to, a title and the hash of its transaction.
\<close>

record 'a OptimisticUpdate =
  "apply" :: "'a \<Rightarrow> 'a"
  effectsAccountID :: string
  frontierURL :: string
  title :: string
  transactionHash :: string

text \<open>
  \<open>OptimisticUpdateCache\<close> closes over a \<open>Map<string, Update[]>\<close> and a \<open>Subject\<close>.
  The map is an association list in insertion order (\<open>Map.get\<close> is \<open>map_of\<close>,
  \<open>Map.set\<close> is \<open>AList.update\<close>: an existing key keeps its place, a new key goes last);
  the subject is the log of the values it has broadcast.
\<close>

record 'a OptimisticUpdateCache =
  updates :: "(string \<times> 'a OptimisticUpdate list) list"
  subject :: "'a OptimisticUpdate list"

definition emptyCache :: "'a OptimisticUpdateCache" where
  "emptyCache = \<lparr>updates = [], subject = []\<rparr>"

definition createAccountCacheKeyByFilter :: "string \<Rightarrow> string \<Rightarrow> string" where
  "createAccountCacheKeyByFilter url accountID = url @ ''/accounts/'' @ accountID"

definition createAccountCacheKey :: "'a OptimisticUpdate \<Rightarrow> string" where
  "createAccountCacheKey update =
     createAccountCacheKeyByFilter (frontierURL update) (effectsAccountID update)"

text \<open>One pass of the loop body of \<open>addUpdates\<close>.\<close>

definition addUpdate :: "'a OptimisticUpdateCache \<Rightarrow> 'a OptimisticUpdate \<Rightarrow> 'a OptimisticUpdateCache" where
  "addUpdate c optimisticUpdate =
     (let selector = createAccountCacheKey optimisticUpdate;
          prevUpdates = (case map_of (updates c) selector of Some us \<Rightarrow> us | None \<Rightarrow> [])
      in \<lparr>updates = AList.update selector (prevUpdates @ [optimisticUpdate]) (updates c),
          subject = subject c @ [optimisticUpdate]\<rparr>)"

definition addUpdates :: "'a OptimisticUpdateCache \<Rightarrow> 'a OptimisticUpdate list \<Rightarrow> 'a OptimisticUpdateCache" where
  "addUpdates c optimisticUpdates = foldl addUpdate c optimisticUpdates"

definition getUpdates :: "'a OptimisticUpdateCache \<Rightarrow> string \<Rightarrow> string \<Rightarrow> 'a OptimisticUpdate list" where
  "getUpdates c url accountID =
     (case map_of (updates c) (createAccountCacheKeyByFilter url accountID) of
        Some us \<Rightarrow> us
      | None \<Rightarrow> [])"

text \<open>\<open>Array.prototype.indexOf\<close>: the first index holding the value, or \<open>-1\<close>.\<close>

fun indexOf :: "'b list \<Rightarrow> 'b \<Rightarrow> int" where
  "indexOf [] x = -1"
| "indexOf (y # ys) x =
     (if y = x then 0 else (let i = indexOf ys x in if i = -1 then -1 else i + 1))"

definition isStale :: "string \<Rightarrow> string list \<Rightarrow> 'a OptimisticUpdate \<Rightarrow> bool" where
  "isStale url latestTransactionHashs optUpdate =
     (frontierURL optUpdate = url \<and> indexOf latestTransactionHashs (transactionHash optUpdate) > -1)"

text \<open>
  \<open>removeStaleUpdates\<close> walks the keys of the map. For each key it reads the list (the
  source asserts the read with \<open>!\<close>; on \<open>undefined\<close> the call of \<open>filter\<close> would throw),
  filters it, and writes it back only when the length changed.
\<close>

fun removeStaleLoop ::
  "string \<Rightarrow> string list \<Rightarrow> (string \<times> 'a OptimisticUpdate list) list \<Rightarrow> string list
     \<Rightarrow> error + (string \<times> 'a OptimisticUpdate list) list" where
  "removeStaleLoop url hashes m [] = Inr m"
| "removeStaleLoop url hashes m (selector # rest) =
     (case map_of m selector of
        None \<Rightarrow> Inl TypeError
      | Some prevOptimisticUpdates \<Rightarrow>
          (let nextOptimisticUpdates =
                 filter (\<lambda>optUpdate. \<not> isStale url hashes optUpdate) prevOptimisticUpdates
           in removeStaleLoop url hashes
                (if length nextOptimisticUpdates \<noteq> length prevOptimisticUpdates
                 then AList.update selector nextOptimisticUpdates m
                 else m)
                rest))"

definition removeStaleUpdates ::
  "'a OptimisticUpdateCache \<Rightarrow> string \<Rightarrow> string list \<Rightarrow> error + 'a OptimisticUpdateCache" where
  "removeStaleUpdates c url latestTransactionHashs =
     (case removeStaleLoop url latestTransactionHashs (updates c) (map fst (updates c)) of
        Inl e \<Rightarrow> Inl e
      | Inr m \<Rightarrow> Inr (c\<lparr>updates := m\<rparr>))"

section \<open>Account snapshots and operations (SDK types)\<close>

text \<open>
  The SDK's \<open>Asset\<close> is read through \<open>code\<close>, \<open>issuer\<close>, \<open>isNative\<close> and \<open>equals\<close>
  only: an asset is its code and its issuer, the native asset has no issuer, and \<open>equals\<close>
  compares both fields. \<open>new Asset(code, issuer)\<close> on the code and issuer of a balance line
  or of an operation builds that pair.
\<close>

record Asset =
  code :: string
  issuer :: "string option"

definition Asset_native :: Asset where
  "Asset_native = \<lparr>code = ''XDB'', issuer = None\<rparr>"

definition isNative :: "Asset \<Rightarrow> bool" where
  "isNative asset = (issuer asset = None)"

record LiquidityPoolAsset =
  assetA :: Asset
  assetB :: Asset
  fee :: nat

datatype ChangeTrustLine = AssetLine Asset | LiquidityPoolLine LiquidityPoolAsset

text \<open>
  \<open>Frontier.BalanceLine\<close> is a union discriminated by \<open>asset_type\<close>: \<open>"native"\<close>,
  \<open>"credit_alphanum4" | "credit_alphanum12"\<close>, or \<open>"liquidity_pool_shares"\<close>. Amounts are
  decimal strings. The issuer of an asset line is optional because \<open>addTrustline\<close> copies
  it from the operation's asset, where the native asset has none.
\<close>

datatype CreditType = credit_alphanum4 | credit_alphanum12

datatype BalanceLine =
    BalanceLineNative
      (balance: string) (buying_liabilities: string) (selling_liabilities: string)
  | BalanceLineAsset
      (asset_code: string) (asset_issuer: "string option") (asset_type: CreditType)
      (balance: string) (buying_liabilities: string)
      (is_authorized: bool) (is_authorized_to_maintain_liabilities: bool)
      (last_modified_ledger: int) (limit: string) (selling_liabilities: string)
      (is_clawback_enabled: bool)
  | BalanceLineLiquidityPool
      (balance: string)
      (is_authorized: bool) (is_authorized_to_maintain_liabilities: bool)
      (is_clawback_enabled: bool) (last_modified_ledger: int) (limit: string)
      (liquidity_pool_id: string)

text \<open>
  An account snapshot, with the fields the worker reads or writes and a few of the others;
  every update copies the fields it does not set (\<open>...prevAccountData\<close>). Weights and
  thresholds are whole numbers.
\<close>

record Signer =
  type :: string
  key :: string
  weight :: int

record AccountThresholds =
  low_threshold :: int
  med_threshold :: int
  high_threshold :: int

record AccountResponse =
  account_id :: string
  sequence :: string
  subentry_count :: int
  home_domain :: "string option"
  thresholds :: AccountThresholds
  balances :: "BalanceLine list"
  signers :: "Signer list"

text \<open>
  The \<open>signer\<close> argument of a \<open>setOptions\<close> operation is one of the SDK's signer shapes,
  each with an optional weight.
\<close>

datatype SignerArg =
    Ed25519PublicKey string "int option"
  | Sha256Hash string "int option"
  | PreAuthTx string "int option"
  | Ed25519SignedPayload string "int option"

record SetOptions =
  source :: "string option"
  signer :: "SignerArg option"
  masterWeight :: "int option"
  lowThreshold :: "int option"
  medThreshold :: "int option"
  highThreshold :: "int option"

record ChangeTrust =
  source :: "string option"
  line :: ChangeTrustLine
  limit :: string

text \<open>A transaction, read through \<open>source\<close> and \<open>hash().toString("hex")\<close>.\<close>

record Transaction =
  source :: string
  hash_hex :: string

text \<open>\<open>operation.source || transaction.source\<close>: an absent or empty source is falsy.\<close>

definition sourceOr :: "string option \<Rightarrow> Transaction \<Rightarrow> string" where
  "sourceOr operation_source transaction =
     (case operation_source of
        None \<Rightarrow> Transaction.source transaction
      | Some s \<Rightarrow> if s = [] then Transaction.source transaction else s)"

text \<open>Numbers inside template literals.\<close>

fun showNat :: "nat \<Rightarrow> string" where
  "showNat n =
     (if n < 10 then [char_of (48 + n)] else showNat (n div 10) @ [char_of (48 + n mod 10)])"

definition showInt :: "int \<Rightarrow> string" where
  "showInt i = (if i < 0 then CHR ''-'' # showNat (nat (- i)) else showNat (nat i))"

definition showOpt :: "int option \<Rightarrow> string" where
  "showOpt v = (case v of None \<Rightarrow> ''undefined'' | Some i \<Rightarrow> showInt i)"

section \<open>Translating \<open>setOptions\<close> (optimistic-updates/set-options.ts)\<close>

definition addSigner ::
  "string \<Rightarrow> SetOptions \<Rightarrow> string \<Rightarrow> int \<Rightarrow> Transaction \<Rightarrow> AccountResponse OptimisticUpdate" where
  "addSigner url operation ed25519PublicKey signer_weight transaction =
     \<lparr>apply = (\<lambda>prevAccountData.
          (let allOtherSigners =
                 filter (\<lambda>existing. key existing \<noteq> ed25519PublicKey) (signers prevAccountData)
           in prevAccountData\<lparr>signers :=
                allOtherSigners @
                [\<lparr>type = ''ed25519_public_key'', key = ed25519PublicKey, weight = signer_weight\<rparr>]\<rparr>)),
      effectsAccountID = sourceOr (SetOptions.source operation) transaction,
      frontierURL = url,
      title = ''Add signer '' @ ed25519PublicKey @ '' (weight '' @ showInt signer_weight @ '')'',
      transactionHash = hash_hex transaction\<rparr>"

definition removeSigner ::
  "string \<Rightarrow> SetOptions \<Rightarrow> string \<Rightarrow> Transaction \<Rightarrow> AccountResponse OptimisticUpdate" where
  "removeSigner url operation ed25519PublicKey transaction =
     \<lparr>apply = (\<lambda>prevAccountData.
          prevAccountData\<lparr>signers :=
            filter (\<lambda>prevSigner.
                \<not> (type prevSigner = ''ed25519_public_key'' \<and> key prevSigner = ed25519PublicKey))
              (signers prevAccountData)\<rparr>),
      effectsAccountID = sourceOr (SetOptions.source operation) transaction,
      frontierURL = url,
      title = ''Remove signer '' @ ed25519PublicKey,
      transactionHash = hash_hex transaction\<rparr>"

definition setMasterWeight ::
  "string \<Rightarrow> SetOptions \<Rightarrow> int \<Rightarrow> Transaction \<Rightarrow> AccountResponse OptimisticUpdate" where
  "setMasterWeight url operation newWeight transaction =
     (let accountID = sourceOr (SetOptions.source operation) transaction
      in \<lparr>apply = (\<lambda>prevAccountData.
            prevAccountData\<lparr>signers :=
              map (\<lambda>s. if type s = ''ed25519_public_key'' \<and> key s = accountID
                        then s\<lparr>weight := newWeight\<rparr>
                        else s)
                (signers prevAccountData)\<rparr>),
          effectsAccountID = accountID,
          frontierURL = url,
          title = ''Set master key weight: '' @ showOpt (masterWeight operation),
          transactionHash = hash_hex transaction\<rparr>)"

definition setThresholds ::
  "string \<Rightarrow> SetOptions \<Rightarrow> Transaction \<Rightarrow> AccountResponse OptimisticUpdate" where
  "setThresholds url operation transaction =
     \<lparr>apply = (\<lambda>prevAccountData.
          (let t0 = thresholds prevAccountData;
               t1 = (case lowThreshold operation of
                       Some v \<Rightarrow> t0\<lparr>low_threshold := v\<rparr> | None \<Rightarrow> t0);
               t2 = (case medThreshold operation of
                       Some v \<Rightarrow> t1\<lparr>med_threshold := v\<rparr> | None \<Rightarrow> t1);
               t3 = (case highThreshold operation of
                       Some v \<Rightarrow> t2\<lparr>high_threshold := v\<rparr> | None \<Rightarrow> t2)
           in prevAccountData\<lparr>thresholds := t3\<rparr>)),
      effectsAccountID = sourceOr (SetOptions.source operation) transaction,
      frontierURL = url,
      title = ''Set thresholds: '' @ showOpt (lowThreshold operation) @ ''/''
                @ showOpt (medThreshold operation) @ ''/'' @ showOpt (highThreshold operation),
      transactionHash = hash_hex transaction\<rparr>"

text \<open>
  \<open>signer && "ed25519PublicKey" in signer && typeof signer.weight === "number"\<close>: the
  guard shared by the first two branches, returning the key and the weight it admits.
\<close>

definition ed25519SignerWithWeight :: "SetOptions \<Rightarrow> (string \<times> int) option" where
  "ed25519SignerWithWeight operation =
     (case signer operation of
        Some (Ed25519PublicKey k (Some w)) \<Rightarrow> Some (k, w)
      | _ \<Rightarrow> None)"

definition thresholdUpdates ::
  "string \<Rightarrow> SetOptions \<Rightarrow> Transaction \<Rightarrow> AccountResponse OptimisticUpdate list" where
  "thresholdUpdates url operation transaction =
     (if lowThreshold operation \<noteq> None \<or> medThreshold operation \<noteq> None
           \<or> highThreshold operation \<noteq> None
      then [setThresholds url operation transaction]
      else [])"

definition setAccountOptions ::
  "string \<Rightarrow> SetOptions \<Rightarrow> Transaction \<Rightarrow> AccountResponse OptimisticUpdate list" where
  "setAccountOptions url operation transaction =
     (let firstUpdates =
        (case ed25519SignerWithWeight operation of
           Some (k, w) \<Rightarrow>
             if w > 0 then [addSigner url operation k w transaction]
             else if w = 0 then [removeSigner url operation k transaction]
             else thresholdUpdates url operation transaction
         | None \<Rightarrow> thresholdUpdates url operation transaction)
      in firstUpdates @
         (case masterWeight operation of
            Some w \<Rightarrow> [setMasterWeight url operation w transaction]
          | None \<Rightarrow> []))"

section \<open>Translating \<open>changeTrust\<close> (optimistic-updates/change-trust.ts)\<close>

text \<open>
  Helpers of \<open>~Generic/lib/digitalbits\<close>. The parameter type of \<open>balancelineToAsset\<close>
  is the application's \<open>BalanceLine\<close>, which has no pool shares; both callers below check
  \<open>asset_type\<close> first, and the function is left unspecified on a pool line.
\<close>

definition balancelineToAsset :: "BalanceLine \<Rightarrow> Asset" where
  "balancelineToAsset balanceline =
     (case balanceline of
        BalanceLineNative _ _ _ \<Rightarrow> Asset_native
      | BalanceLineAsset c i _ _ _ _ _ _ _ _ _ \<Rightarrow> \<lparr>code = c, issuer = i\<rparr>)"

text \<open>
  \<open>getLiquidityPoolId\<close> is the SDK's hash of the pool parameters; it is the parameter
  \<open>poolHash\<close> of everything that needs it.
\<close>

definition getLiquidityPoolIdFromAsset ::
  "(Asset \<Rightarrow> Asset \<Rightarrow> nat \<Rightarrow> string) \<Rightarrow> LiquidityPoolAsset \<Rightarrow> string" where
  "getLiquidityPoolIdFromAsset poolHash asset = poolHash (assetA asset) (assetB asset) (fee asset)"

definition stringifyAssetToReadableString :: "ChangeTrustLine \<Rightarrow> string" where
  "stringifyAssetToReadableString asset =
     (case asset of
        AssetLine a \<Rightarrow> if isNative a then ''XDB'' else code a
      | LiquidityPoolLine p \<Rightarrow>
          ''Liquidity Pool '' @ [CHR 0x27] @ code (assetA p) @ '' <-> '' @ code (assetB p)
            @ [CHR 0x27])"

text \<open>
  The predicate handed to \<open>some\<close> in \<open>addTrustline\<close>. The rows are the branches of the
  source: the first is its \<open>if\<close> (pool line, pool operation), the third its \<open>else if\<close>
  (neither is a pool), the second and fourth its final \<open>else\<close>.
\<close>

definition trustlineMatches ::
  "(Asset \<Rightarrow> Asset \<Rightarrow> nat \<Rightarrow> string) \<Rightarrow> ChangeTrust \<Rightarrow> BalanceLine \<Rightarrow> bool" where
  "trustlineMatches poolHash operation b =
     (case (b, line operation) of
        (BalanceLineLiquidityPool _ _ _ _ _ _ pid, LiquidityPoolLine p) \<Rightarrow>
          pid = getLiquidityPoolIdFromAsset poolHash p
      | (BalanceLineLiquidityPool _ _ _ _ _ _ _, AssetLine _) \<Rightarrow> False
      | (_, AssetLine asset) \<Rightarrow> balancelineToAsset b = asset
      | (_, LiquidityPoolLine _) \<Rightarrow> False)"

definition addTrustline ::
  "(Asset \<Rightarrow> Asset \<Rightarrow> nat \<Rightarrow> string) \<Rightarrow> string \<Rightarrow> ChangeTrust \<Rightarrow> Transaction
     \<Rightarrow> AccountResponse OptimisticUpdate" where
  "addTrustline poolHash url operation transaction =
     \<lparr>apply = (\<lambda>prevAccountData.
          (let newBalance =
             (case line operation of
                LiquidityPoolLine p \<Rightarrow>
                  BalanceLineLiquidityPool ''0'' False False False 0 (limit operation)
                    (getLiquidityPoolIdFromAsset poolHash p)
              | AssetLine a \<Rightarrow>
                  BalanceLineAsset (code a) (issuer a) credit_alphanum12 ''0'' ''0''
                    False False 0 (limit operation) ''0'' False)
           in prevAccountData\<lparr>balances :=
                (if list_ex (trustlineMatches poolHash operation) (balances prevAccountData)
                 then balances prevAccountData
                 else balances prevAccountData @ [newBalance])\<rparr>)),
      effectsAccountID = sourceOr (ChangeTrust.source operation) transaction,
      frontierURL = url,
      title = ''Remove trustline for '' @ stringifyAssetToReadableString (line operation),
      transactionHash = hash_hex transaction\<rparr>"

text \<open>
  The predicate handed to \<open>filter\<close> in \<open>removeTrustline\<close>, with the same rows: the
  first is the source's \<open>if\<close>, the third its \<open>else if\<close>, and the second and fourth its
  final \<open>else\<close>, which returns \<open>false\<close>.
\<close>

definition trustlineKept ::
  "(Asset \<Rightarrow> Asset \<Rightarrow> nat \<Rightarrow> string) \<Rightarrow> ChangeTrust \<Rightarrow> BalanceLine \<Rightarrow> bool" where
  "trustlineKept poolHash operation b =
     (case (b, line operation) of
        (BalanceLineLiquidityPool _ _ _ _ _ _ pid, LiquidityPoolLine p) \<Rightarrow>
          pid \<noteq> getLiquidityPoolIdFromAsset poolHash p
      | (BalanceLineLiquidityPool _ _ _ _ _ _ _, AssetLine _) \<Rightarrow> False
      | (_, AssetLine asset) \<Rightarrow> balancelineToAsset b \<noteq> asset
      | (_, LiquidityPoolLine _) \<Rightarrow> False)"

definition removeTrustline ::
  "(Asset \<Rightarrow> Asset \<Rightarrow> nat \<Rightarrow> string) \<Rightarrow> string \<Rightarrow> ChangeTrust \<Rightarrow> Transaction
     \<Rightarrow> AccountResponse OptimisticUpdate" where
  "removeTrustline poolHash url operation transaction =
     \<lparr>apply = (\<lambda>prevAccountData.
          prevAccountData\<lparr>balances :=
            filter (trustlineKept poolHash operation) (balances prevAccountData)\<rparr>),
      effectsAccountID = sourceOr (ChangeTrust.source operation) transaction,
      frontierURL = url,
      title = ''Remove trustline for '' @ stringifyAssetToReadableString (line operation),
      transactionHash = hash_hex transaction\<rparr>"

text \<open>
  \<open>BigNumber(operation.limit).eq(0)\<close>. big.js accepts the strings of the shape
  \<open>-?(\d+(\.\d*)?|\.\d+)(e[+-]?\d+)?\<close> (letters in either case) and throws on any other;
  an accepted string is zero when every digit of its mantissa is \<open>0\<close>.
\<close>

definition isDigit :: "char \<Rightarrow> bool" where
  "isDigit c = (c \<in> set ''0123456789'')"

definition validMantissa :: "string \<Rightarrow> bool" where
  "validMantissa s =
     (let ip = takeWhile isDigit s; r = dropWhile isDigit s
      in if ip \<noteq> []
         then (case r of [] \<Rightarrow> True | c # fs \<Rightarrow> c = CHR ''.'' \<and> list_all isDigit fs)
         else (case r of [] \<Rightarrow> False | c # fs \<Rightarrow> c = CHR ''.'' \<and> fs \<noteq> [] \<and> list_all isDigit fs))"

definition validExponent :: "string \<Rightarrow> bool" where
  "validExponent s =
     (case s of
        [] \<Rightarrow> True
      | _ # r \<Rightarrow>
          (let ds = (case r of
                       [] \<Rightarrow> []
                     | x # r' \<Rightarrow> if x = CHR ''+'' \<or> x = CHR ''-'' then r' else r)
           in ds \<noteq> [] \<and> list_all isDigit ds))"

definition BigNumber_eq_zero :: "string \<Rightarrow> error + bool" where
  "BigNumber_eq_zero s =
     (let unsigned = (case s of [] \<Rightarrow> [] | c # r \<Rightarrow> if c = CHR ''-'' then r else s);
          notE = (\<lambda>c. c \<noteq> CHR ''e'' \<and> c \<noteq> CHR ''E'');
          mantissa = takeWhile notE unsigned;
          exponent = dropWhile notE unsigned
      in if validMantissa mantissa \<and> validExponent exponent
         then Inr (list_all (\<lambda>c. c = CHR ''0'' \<or> c = CHR ''.'') mantissa)
         else Inl (Rejected ''[big.js] Invalid number''))"

definition changeTrust ::
  "(Asset \<Rightarrow> Asset \<Rightarrow> nat \<Rightarrow> string) \<Rightarrow> string \<Rightarrow> ChangeTrust \<Rightarrow> Transaction
     \<Rightarrow> error + AccountResponse OptimisticUpdate list" where
  "changeTrust poolHash url operation transaction =
     (case BigNumber_eq_zero (limit operation) of
        Inl e \<Rightarrow> Inl e
      | Inr True \<Rightarrow> Inr [removeTrustline poolHash url operation transaction]
      | Inr False \<Rightarrow> Inr [addTrustline poolHash url operation transaction])"

section \<open>Reading through the ledger (optimistic-updates/index.ts)\<close>

text \<open>
  \<open>optimisticallyUpdateAccountData\<close>: the updates are looked up under the endpoint and the
  snapshot's own \<open>account_id\<close>, and \<open>reduce\<close> folds them from the left, starting at the
  snapshot. The ledger \<open>accountDataUpdates\<close> is the module's singleton, passed explicitly.
\<close>

definition optimisticallyUpdateAccountData ::
  "AccountResponse OptimisticUpdateCache \<Rightarrow> string \<Rightarrow> AccountResponse \<Rightarrow> AccountResponse" where
  "optimisticallyUpdateAccountData accountDataUpdates url accountData =
     (let optimisticUpdates = getUpdates accountDataUpdates url (account_id accountData)
      in foldl (\<lambda>updatedAccountData update. apply update updatedAccountData)
           accountData optimisticUpdates)"

section \<open>Endpoint health check (digitalbits-network.ts)\<close>

text \<open>
  \<open>checkFrontierOrFailover\<close> races the primary's fetch against \<open>delay(2500)\<close> inside a
  \<open>try\<close>. The race ends in one of three ways: the fetch answers first (with a status), the
  fetch fails first, or the timer fires first and throws. The secondary's fetch has no
  timer and stands outside the \<open>try\<close>: it answers, fails, or never settles.
\<close>

datatype PrimaryRace = AnsweredInTime nat | FetchFailedInTime | TimedOut

datatype SecondaryFetch = SecondaryAnswered nat | SecondaryFailed error | SecondaryPending

definition statusFine :: "nat \<Rightarrow> bool" where
  "statusFine status = (status < 300 \<or> status = 404)"

text \<open>The result is \<open>None\<close> when the returned promise never settles.\<close>

definition checkFrontierOrFailover ::
  "string \<Rightarrow> string \<Rightarrow> PrimaryRace \<Rightarrow> SecondaryFetch \<Rightarrow> (error + string) option" where
  "checkFrontierOrFailover primaryFrontierURL secondaryFrontierURL primaryRace secondaryFetch =
     (let failover =
        (case secondaryFetch of
           SecondaryAnswered status \<Rightarrow>
             Some (Inr (if statusFine status then secondaryFrontierURL else primaryFrontierURL))
         | SecondaryFailed e \<Rightarrow> Some (Inl e)
         | SecondaryPending \<Rightarrow> None)
      in case primaryRace of
           AnsweredInTime status \<Rightarrow>
             if statusFine status then Some (Inr primaryFrontierURL) else failover
         | FetchFailedInTime \<Rightarrow> failover
         | TimedOut \<Rightarrow> failover)"

section \<open>Numbers of the runtime: IEEE 754 doubles\<close>

text \<open>
  The interval of the wait loop is a JavaScript number. A finite double that is not
  negative is \<open>m * 2^e\<close> for a mantissa \<open>m\<close> and an exponent \<open>e\<close>. The product of two
  doubles is the exact product rounded to 53 significant bits, to the nearest and on a tie
  to the even mantissa. Signs, \<open>NaN\<close>, infinities and subnormal numbers are left out: the
  loop multiplies numbers between 2500 and 5000 by 1.05.
\<close>

datatype Double = Double (mantissa: nat) (exponent: int)

definition valueOf :: "Double \<Rightarrow> real" where
  "valueOf d = real (mantissa d) * 2 powi exponent d"

text \<open>The number of significant bits of a natural number.\<close>

fun bitLength :: "nat \<Rightarrow> nat" where
  "bitLength n = (if n = 0 then 0 else Suc (bitLength (n div 2)))"

text \<open>\<open>m / 2^k\<close> rounded to the nearest natural number, a tie going to the even one.\<close>

definition roundHalfEven :: "nat \<Rightarrow> nat \<Rightarrow> nat" where
  "roundHalfEven m k =
     (if k = 0 then m
      else (let q = m div 2 ^ k; r = m mod 2 ^ k; half = 2 ^ (k - 1)
            in if r < half then q
               else if half < r then q + 1
               else if even q then q else q + 1))"

definition roundTo53 :: "nat \<Rightarrow> int \<Rightarrow> Double" where
  "roundTo53 m e = (let k = bitLength m - 53 in Double (roundHalfEven m k) (e + int k))"

text \<open>The operator \<open>*\<close> on two doubles.\<close>

definition Double_times :: "Double \<Rightarrow> Double \<Rightarrow> Double" where
  "Double_times a b = roundTo53 (mantissa a * mantissa b) (exponent a + exponent b)"

definition Math_min :: "Double \<Rightarrow> Double \<Rightarrow> Double" where
  "Math_min a b = (if valueOf a \<le> valueOf b then a else b)"

text \<open>
  The literal \<open>1.05\<close> denotes the double nearest to 21/20, which is
  \<open>4728779608739021 * 2^-52\<close> (\<open>0x1.0cccccccccccdp+0\<close>).
\<close>

definition double_1_05 :: Double where
  "double_1_05 = Double 4728779608739021 (- 52)"

section \<open>Waiting for an account to exist (digitalbits-network.ts)\<close>

text \<open>A response is read through \<open>status\<close> and \<open>url\<close> (here \<open>response_url\<close>).\<close>

record Response =
  status :: nat
  response_url :: string

text \<open>
  The loop of \<open>waitForAccountDataUncached\<close>. What the loop meets is given from outside:
  \<open>shouldCancel\<close> is the optional poll (the answer of its \<open>n\<close>-th call), \<open>fetches\<close> the
  outcomes of the successive fetches through the queue (an error when the fetch or the
  queue throws), and \<open>parseJSONResponse\<close> the reader of \<open>lib/rest\<close>, which returns the
  parsed body or throws. The loop runs as long as outcomes are given; when none is left
  the fetch is still pending. The state carried round the loop is the iteration count,
  \<open>interval\<close> (a double, in milliseconds), \<open>initialFetchFailed\<close> and the delays slept
  so far (the numbers handed to \<open>delay\<close>).
\<close>

datatype WaitResult =
    Returned AccountResponse bool
  | Threw error
  | Pending

text \<open>\<open>shouldCancel && shouldCancel()\<close>, at the \<open>n\<close>-th iteration.\<close>

definition cancelRequested :: "(nat \<Rightarrow> bool) option \<Rightarrow> nat \<Rightarrow> bool" where
  "cancelRequested shouldCancel n = (case shouldCancel of None \<Rightarrow> False | Some poll \<Rightarrow> poll n)"

fun waitLoop ::
  "(Response \<Rightarrow> error + AccountResponse) \<Rightarrow> (nat \<Rightarrow> bool) option \<Rightarrow> nat \<Rightarrow> Double \<Rightarrow> bool
     \<Rightarrow> real list \<Rightarrow> (error + Response) list \<Rightarrow> WaitResult \<times> real list" where
  "waitLoop parseJSONResponse shouldCancel n interval initialFetchFailed delays fetches =
     (if cancelRequested shouldCancel n
      then (Threw (Cancellation ''Stopping to wait for account to become present in network.''),
            delays)
      else (case fetches of
              [] \<Rightarrow> (Pending, delays)
            | Inl e # rest \<Rightarrow> (Threw e, delays)
            | Inr response # rest \<Rightarrow>
                if status response = 200
                then (case parseJSONResponse response of
                        Inl e \<Rightarrow> (Threw e, delays)
                      | Inr accountData \<Rightarrow> (Returned accountData initialFetchFailed, delays))
                else if status response = 404
                then waitLoop parseJSONResponse shouldCancel (Suc n)
                       (Math_min (Double_times interval double_1_05) (Double 5000 0)) True
                       (delays @ [valueOf interval]) rest
                else (Threw (RequestFailedError (response_url response) (status response)), delays)))"

definition waitForAccountDataUncached ::
  "(Response \<Rightarrow> error + AccountResponse) \<Rightarrow> (nat \<Rightarrow> bool) option \<Rightarrow> (error + Response) list
     \<Rightarrow> WaitResult \<times> real list" where
  "waitForAccountDataUncached parseJSONResponse shouldCancel fetches =
     waitLoop parseJSONResponse shouldCancel 0 (Double 2500 0) False [] fetches"

text \<open>
  The loop header \<open>for (let interval = 2500; ; interval = Math.min(interval * 1.05, 5000))\<close>
  read as a sequence: the interval of the \<open>n\<close>-th iteration.
\<close>

fun backoff :: "nat \<Rightarrow> Double" where
  "backoff 0 = Double 2500 0"
| "backoff (Suc n) = Math_min (Double_times (backoff n) double_1_05) (Double 5000 0)"

section \<open>Asset identifiers and order books (digitalbits-network.ts)\<close>

text \<open>\<open>String.prototype.split\<close> on a one-character separator: never an empty list.\<close>

fun splitOn :: "char \<Rightarrow> string \<Rightarrow> string list" where
  "splitOn sep [] = [[]]"
| "splitOn sep (c # cs) =
     (if c = sep then [] # splitOn sep cs
      else (case splitOn sep cs of
              [] \<Rightarrow> [[c]]
            | part # parts \<Rightarrow> (c # part) # parts))"

text \<open>
  \<open>parseAssetID\<close> of \<open>~Generic/lib/digitalbits\<close> hands the second and the first part of
  the identifier to the SDK's \<open>Asset\<close> constructor, which checks them and throws on what
  it refuses. The identifier is any string the caller passes, so here the constructor is
  the parameter \<open>newAsset\<close>: it takes the code and the issuer as passed (\<open>None\<close> for
  \<open>undefined\<close>) and returns the asset or the error.
\<close>

definition parseAssetID ::
  "(string option \<Rightarrow> string option \<Rightarrow> error + Asset) \<Rightarrow> string \<Rightarrow> error + Asset" where
  "parseAssetID newAsset assetID =
     (if assetID = ''XDB'' then Inr Asset_native
      else (case splitOn CHR '':'' assetID of
              [] \<Rightarrow> newAsset None None
            | [issuerPart] \<Rightarrow> newAsset None (Some issuerPart)
            | issuerPart # codePart # _ \<Rightarrow> newAsset (Some codePart) (Some issuerPart)))"

record OrderbookOffer =
  price :: string
  amount :: string

record OrderbookRecord =
  links_self_href :: string
  asks :: "OrderbookOffer list"
  bids :: "OrderbookOffer list"
  base :: Asset
  counter :: Asset

definition createEmptyOrderbookRecord :: "Asset \<Rightarrow> Asset \<Rightarrow> OrderbookRecord" where
  "createEmptyOrderbookRecord baseAsset counterAsset =
     \<lparr>links_self_href = [], asks = [], bids = [], base = baseAsset, counter = counterAsset\<rparr>"

definition getAssetType :: "Asset \<Rightarrow> string" where
  "getAssetType asset =
     (if isNative asset then ''native''
      else if length (code asset) \<le> 4 then ''credit_alphanum4''
      else ''credit_alphanum12'')"

definition assetQuery :: "string \<Rightarrow> Asset \<Rightarrow> (string \<times> string) list" where
  "assetQuery side asset =
     (case issuer asset of
        None \<Rightarrow> []
      | Some i \<Rightarrow> [(side @ ''_asset_code'', code asset), (side @ ''_asset_issuer'', i)])"

definition createOrderbookQuery :: "Asset \<Rightarrow> Asset \<Rightarrow> (string \<times> string) list" where
  "createOrderbookQuery selling buying =
     [(''limit'', ''100''),
      (''buying_asset_type'', getAssetType buying),
      (''selling_asset_type'', getAssetType selling)]
     @ assetQuery ''buying'' buying @ assetQuery ''selling'' selling"

section \<open>Module state, fetch queues and subscriptions (digitalbits-network.ts)\<close>

text \<open>
  An observable is an object; its identity is the position at which it was created in
  the list of all observables created so far, and what is stored there says how it was
  made: \<open>Observable.from\<close> holds the values it will emit, the others what their maker
  was given.
\<close>

datatype Observable =
    ObservableFrom "OrderbookRecord list"
  | AccountEffectsUpdates "string option" string
  | AccountUpdates "string option" "string list" string
  | OpenOrdersUpdates "string option" "string list" string
  | OrderbookUpdates "string option" "(string \<times> string) list"
  | MulticastTransactions nat "string list" string

text \<open>A request handed to a fetch queue: endpoint, path and query (without the client headers).\<close>

datatype Request = Request "string option" string "(string \<times> string) list"

record PromiseQueue =
  queue_id :: nat
  concurrency :: nat
  interval :: nat
  intervalCap :: nat
  timeout :: nat
  throwOnTimeout :: bool

text \<open>
  The module-level variables: the five subscription caches (key to observable), the
  fetch queues by endpoint, the round-robin index; and, for what the module does to the
  outside, the observables created and the requests handed to the queues.
\<close>

record NetWorker =
  accountSubscriptionCache :: "(string \<times> nat) list"
  effectsSubscriptionCache :: "(string \<times> nat) list"
  orderbookSubscriptionCache :: "(string \<times> nat) list"
  ordersSubscriptionCache :: "(string \<times> nat) list"
  transactionsSubscriptionCache :: "(string \<times> nat) list"
  fetchQueuesByFrontier :: "(string option \<times> PromiseQueue) list"
  roundRobinIndex :: nat
  observables :: "Observable list"
  requests :: "Request list"

definition initialNetWorker :: NetWorker where
  "initialNetWorker =
     \<lparr>accountSubscriptionCache = [], effectsSubscriptionCache = [],
      orderbookSubscriptionCache = [], ordersSubscriptionCache = [],
      transactionsSubscriptionCache = [], fetchQueuesByFrontier = [],
      roundRobinIndex = 0, observables = [], requests = []\<rparr>"

text \<open>
  Modelled from the spec: \<open>subscribeToUpdatesAndPoll\<close> of \<open>lib/subscription\<close> is not
  among these files (nor are \<open>multicast\<close> and \<open>Observable.from\<close> of the observable
  library). By section 4.5 of the specification the first caller for a key "creates the
  live stream and stores the handle": a call makes one new observable, and fetches
  nothing by itself.
\<close>

definition newObservable :: "Observable \<Rightarrow> NetWorker \<Rightarrow> nat \<times> NetWorker" where
  "newObservable made w = (length (observables w), w\<lparr>observables := observables w @ [made]\<rparr>)"

text \<open>
  The template \<open>`${frontierURLs.map(url => `${url}:`)}${accountID}`\<close>: an array inside a
  template is joined with commas.
\<close>

fun joinComma :: "string list \<Rightarrow> string" where
  "joinComma [] = []"
| "joinComma [part] = part"
| "joinComma (part # next # parts) = part @ '','' @ joinComma (next # parts)"

definition createAccountCacheKey' :: "string list \<Rightarrow> string \<Rightarrow> string" where
  "createAccountCacheKey' frontierURLs accountID =
     joinComma (map (\<lambda>u. u @ '':'') frontierURLs) @ accountID"

definition createOrderbookCacheKey :: "string list \<Rightarrow> string \<Rightarrow> string \<Rightarrow> string" where
  "createOrderbookCacheKey frontierURLs sellingAsset buyingAsset =
     joinComma (map (\<lambda>u. u @ '':'') frontierURLs) @ sellingAsset @ '':'' @ buyingAsset"

text \<open>\<open>getRandomURL\<close>: on an empty list the index is \<open>NaN\<close> and the result \<open>undefined\<close>.\<close>

definition getRandomURL :: "string list \<Rightarrow> NetWorker \<Rightarrow> string option \<times> NetWorker" where
  "getRandomURL frontierURLs w =
     ((if frontierURLs = [] then None
       else Some (frontierURLs ! (roundRobinIndex w mod length frontierURLs))),
      w\<lparr>roundRobinIndex := roundRobinIndex w + 1\<rparr>)"

definition getFetchQueue :: "string option \<Rightarrow> NetWorker \<Rightarrow> PromiseQueue \<times> NetWorker" where
  "getFetchQueue endpoint w =
     (case map_of (fetchQueuesByFrontier w) endpoint of
        Some fetchQueue \<Rightarrow> (fetchQueue, w)
      | None \<Rightarrow>
          (let fetchQueue =
                 \<lparr>queue_id = length (fetchQueuesByFrontier w), concurrency = 4, interval = 1000,
                  intervalCap = 4, timeout = 10000, throwOnTimeout = True\<rparr>
           in (fetchQueue,
               w\<lparr>fetchQueuesByFrontier :=
                   AList.update endpoint fetchQueue (fetchQueuesByFrontier w)\<rparr>)))"

text \<open>
  \<open>cachify\<close>. The cache is a module-level map, given by how to read and how to write it
  in the state; \<open>subscribe\<close> may change the state and may throw.
\<close>

definition cachify ::
  "(NetWorker \<Rightarrow> (string \<times> nat) list) \<Rightarrow> ((string \<times> nat) list \<Rightarrow> NetWorker \<Rightarrow> NetWorker)
     \<Rightarrow> ('args \<Rightarrow> NetWorker \<Rightarrow> (error + nat) \<times> NetWorker) \<Rightarrow> ('args \<Rightarrow> string)
     \<Rightarrow> 'args \<Rightarrow> NetWorker \<Rightarrow> (error + nat) \<times> NetWorker" where
  "cachify readCache writeCache subscribe createCacheKey args w =
     (let cacheKey = createCacheKey args
      in case map_of (readCache w) cacheKey of
           Some cached \<Rightarrow> (Inr cached, w)
         | None \<Rightarrow>
             (case subscribe args w of
                (Inl e, w') \<Rightarrow> (Inl e, w')
              | (Inr observable, w') \<Rightarrow>
                  (Inr observable,
                   writeCache (AList.update cacheKey observable (readCache w')) w')))"

definition subscribeToAccountEffectsUncached ::
  "string list \<times> string \<Rightarrow> NetWorker \<Rightarrow> (error + nat) \<times> NetWorker" where
  "subscribeToAccountEffectsUncached args w =
     (case args of (frontierURLs, accountID) \<Rightarrow>
        (let (endpoint, w1) = getRandomURL frontierURLs w;
             (fetchQueue, w2) = getFetchQueue endpoint w1;
             (observable, w3) = newObservable (AccountEffectsUpdates endpoint accountID) w2
         in (Inr observable, w3)))"

definition subscribeToAccountEffects ::
  "string list \<times> string \<Rightarrow> NetWorker \<Rightarrow> (error + nat) \<times> NetWorker" where
  "subscribeToAccountEffects =
     cachify effectsSubscriptionCache (\<lambda>c w. w\<lparr>effectsSubscriptionCache := c\<rparr>)
       subscribeToAccountEffectsUncached (\<lambda>(frontierURLs, accountID). createAccountCacheKey' frontierURLs accountID)"

definition subscribeToAccountUncached ::
  "string list \<times> string \<Rightarrow> NetWorker \<Rightarrow> (error + nat) \<times> NetWorker" where
  "subscribeToAccountUncached args w =
     (case args of (frontierURLs, accountID) \<Rightarrow>
        (let (endpoint, w1) = getRandomURL frontierURLs w;
             (observable, w2) = newObservable (AccountUpdates endpoint frontierURLs accountID) w1
         in (Inr observable, w2)))"

definition subscribeToAccount ::
  "string list \<times> string \<Rightarrow> NetWorker \<Rightarrow> (error + nat) \<times> NetWorker" where
  "subscribeToAccount =
     cachify accountSubscriptionCache (\<lambda>c w. w\<lparr>accountSubscriptionCache := c\<rparr>)
       subscribeToAccountUncached (\<lambda>(frontierURLs, accountID). createAccountCacheKey' frontierURLs accountID)"

text \<open>
  \<open>fetchAccountTransactions\<close> up to its first \<open>await\<close>: an endpoint is picked, its queue
  is fetched and the request, with the pagination options given, is handed to the queue.
\<close>

definition fetchAccountTransactionsStart ::
  "string list \<Rightarrow> string \<Rightarrow> (string \<times> string) list \<Rightarrow> NetWorker \<Rightarrow> NetWorker" where
  "fetchAccountTransactionsStart frontierURLs accountID pagination w =
     (let (endpoint, w1) = getRandomURL frontierURLs w;
          (fetchQueue, w2) = getFetchQueue endpoint w1
      in w2\<lparr>requests := requests w2 @
            [Request endpoint (''/accounts/'' @ accountID @ ''/transactions'') pagination]\<rparr>)"

text \<open>
  \<open>subscribeToAccountTransactionsUncached\<close> starts \<open>fetchInitial\<close> at once (the latest
  transaction of the account), then takes the effects subscription through its cache and
  wraps it by \<open>multicast\<close>.
\<close>

definition subscribeToAccountTransactionsUncached ::
  "string list \<times> string \<Rightarrow> NetWorker \<Rightarrow> (error + nat) \<times> NetWorker" where
  "subscribeToAccountTransactionsUncached args w =
     (case args of (frontierURLs, accountID) \<Rightarrow>
        (let w1 = fetchAccountTransactionsStart frontierURLs accountID
                    [(''limit'', ''1''), (''order'', ''desc'')] w
         in case subscribeToAccountEffects (frontierURLs, accountID) w1 of
              (Inl e, w2) \<Rightarrow> (Inl e, w2)
            | (Inr effects, w2) \<Rightarrow>
                (let (observable, w3) =
                       newObservable (MulticastTransactions effects frontierURLs accountID) w2
                 in (Inr observable, w3))))"

definition subscribeToAccountTransactions ::
  "string list \<times> string \<Rightarrow> NetWorker \<Rightarrow> (error + nat) \<times> NetWorker" where
  "subscribeToAccountTransactions =
     cachify transactionsSubscriptionCache (\<lambda>c w. w\<lparr>transactionsSubscriptionCache := c\<rparr>)
       subscribeToAccountTransactionsUncached
       (\<lambda>(frontierURLs, accountID). createAccountCacheKey' frontierURLs accountID)"

definition subscribeToOpenOrdersUncached ::
  "string list \<times> string \<Rightarrow> NetWorker \<Rightarrow> (error + nat) \<times> NetWorker" where
  "subscribeToOpenOrdersUncached args w =
     (case args of (frontierURLs, accountID) \<Rightarrow>
        (let (endpoint, w1) = getRandomURL frontierURLs w;
             (observable, w2) = newObservable (OpenOrdersUpdates endpoint frontierURLs accountID) w1
         in (Inr observable, w2)))"

definition subscribeToOpenOrders ::
  "string list \<times> string \<Rightarrow> NetWorker \<Rightarrow> (error + nat) \<times> NetWorker" where
  "subscribeToOpenOrders =
     cachify ordersSubscriptionCache (\<lambda>c w. w\<lparr>ordersSubscriptionCache := c\<rparr>)
       subscribeToOpenOrdersUncached (\<lambda>(frontierURLs, accountID). createAccountCacheKey' frontierURLs accountID)"

definition subscribeToOrderbookUncached ::
  "(string option \<Rightarrow> string option \<Rightarrow> error + Asset) \<Rightarrow> string list \<times> string \<times> string
     \<Rightarrow> NetWorker \<Rightarrow> (error + nat) \<times> NetWorker" where
  "subscribeToOrderbookUncached newAsset args w =
     (case args of (frontierURLs, sellingAsset, buyingAsset) \<Rightarrow>
        (case parseAssetID newAsset buyingAsset of
           Inl e \<Rightarrow> (Inl e, w)
         | Inr buying \<Rightarrow>
             (case parseAssetID newAsset sellingAsset of
                Inl e \<Rightarrow> (Inl e, w)
              | Inr selling \<Rightarrow>
                  (let query = createOrderbookQuery selling buying
                   in if selling = buying
                      then (let (observable, w1) =
                                  newObservable (ObservableFrom [createEmptyOrderbookRecord buying buying]) w
                            in (Inr observable, w1))
                      else (let (endpoint, w1) = getRandomURL frontierURLs w;
                                (fetchQueue, w2) = getFetchQueue endpoint w1;
                                (observable, w3) =
                                  newObservable (OrderbookUpdates endpoint (query @ [(''cursor'', ''now'')])) w2
                            in (Inr observable, w3))))))"

definition subscribeToOrderbook ::
  "(string option \<Rightarrow> string option \<Rightarrow> error + Asset) \<Rightarrow> string list \<times> string \<times> string
     \<Rightarrow> NetWorker \<Rightarrow> (error + nat) \<times> NetWorker" where
  "subscribeToOrderbook newAsset =
     cachify orderbookSubscriptionCache (\<lambda>c w. w\<lparr>orderbookSubscriptionCache := c\<rparr>)
       (subscribeToOrderbookUncached newAsset)
       (\<lambda>(frontierURLs, sellingAsset, buyingAsset).
          createOrderbookCacheKey frontierURLs sellingAsset buyingAsset)"

text \<open>
  \<open>resetAllSubscriptions\<close> clears the five caches. Its last call, \<open>resetSubscriptions\<close> of
  \<open>lib/subscription\<close>, works on that module's own state, of which nothing is kept here.
\<close>

definition resetAllSubscriptions :: "NetWorker \<Rightarrow> NetWorker" where
  "resetAllSubscriptions w =
     w\<lparr>accountSubscriptionCache := [], effectsSubscriptionCache := [],
       orderbookSubscriptionCache := [], ordersSubscriptionCache := [],
       transactionsSubscriptionCache := []\<rparr>"

text \<open>
  \<open>fetchOrderbookRecord\<close>. \<open>respond\<close> is what the endpoint answers to a request, read by
  \<open>parseJSONResponse\<close>: the record, or the error thrown on the way.
\<close>

definition fetchOrderbookRecord ::
  "(string option \<Rightarrow> string option \<Rightarrow> error + Asset) \<Rightarrow> (Request \<Rightarrow> error + OrderbookRecord)
     \<Rightarrow> string list \<Rightarrow> string \<Rightarrow> string \<Rightarrow> NetWorker \<Rightarrow> (error + OrderbookRecord) \<times> NetWorker" where
  "fetchOrderbookRecord newAsset respond frontierURLs sellingAsset buyingAsset w =
     (if buyingAsset = sellingAsset
      then (case parseAssetID newAsset buyingAsset of
              Inl e \<Rightarrow> (Inl e, w)
            | Inr buying \<Rightarrow> (Inr (createEmptyOrderbookRecord buying buying), w))
      else (let (endpoint, w1) = getRandomURL frontierURLs w;
                (fetchQueue, w2) = getFetchQueue endpoint w1
            in case parseAssetID newAsset sellingAsset of
                 Inl e \<Rightarrow> (Inl e, w2)
               | Inr selling \<Rightarrow>
                   (case parseAssetID newAsset buyingAsset of
                      Inl e \<Rightarrow> (Inl e, w2)
                    | Inr buying \<Rightarrow>
                        (let request = Request endpoint ''/order_book''
                                         (createOrderbookQuery selling buying)
                         in (respond request, w2\<lparr>requests := requests w2 @ [request]\<rparr>)))))"

text \<open>
  The calls a client of the worker can make on the subscription caches, and the state
  after a sequence of them.
\<close>

datatype SubscribeCall =
    SubscribeToAccount "string list" string
  | SubscribeToAccountEffects "string list" string
  | SubscribeToOpenOrders "string list" string
  | SubscribeToOrderbook "string list" string string
  | SubscribeToAccountTransactions "string list" string

fun perform ::
  "(string option \<Rightarrow> string option \<Rightarrow> error + Asset) \<Rightarrow> SubscribeCall \<Rightarrow> NetWorker
     \<Rightarrow> (error + nat) \<times> NetWorker" where
  "perform newAsset (SubscribeToAccount urls accountID) w = subscribeToAccount (urls, accountID) w"
| "perform newAsset (SubscribeToAccountEffects urls accountID) w =
     subscribeToAccountEffects (urls, accountID) w"
| "perform newAsset (SubscribeToOpenOrders urls accountID) w =
     subscribeToOpenOrders (urls, accountID) w"
| "perform newAsset (SubscribeToOrderbook urls sellingAsset buyingAsset) w =
     subscribeToOrderbook newAsset (urls, sellingAsset, buyingAsset) w"
| "perform newAsset (SubscribeToAccountTransactions urls accountID) w =
     subscribeToAccountTransactions (urls, accountID) w"

fun performAll ::
  "(string option \<Rightarrow> string option \<Rightarrow> error + Asset) \<Rightarrow> SubscribeCall list \<Rightarrow> NetWorker \<Rightarrow> NetWorker" where
  "performAll newAsset [] w = w"
| "performAll newAsset (c # cs) w = performAll newAsset cs (snd (perform newAsset c w))"

text \<open>The cache a call goes through, and the key it computes.\<close>

fun cacheOf :: "SubscribeCall \<Rightarrow> NetWorker \<Rightarrow> (string \<times> nat) list" where
  "cacheOf (SubscribeToAccount _ _) = accountSubscriptionCache"
| "cacheOf (SubscribeToAccountEffects _ _) = effectsSubscriptionCache"
| "cacheOf (SubscribeToOpenOrders _ _) = ordersSubscriptionCache"
| "cacheOf (SubscribeToOrderbook _ _ _) = orderbookSubscriptionCache"
| "cacheOf (SubscribeToAccountTransactions _ _) = transactionsSubscriptionCache"

fun keyOf :: "SubscribeCall \<Rightarrow> string" where
  "keyOf (SubscribeToAccount urls accountID) = createAccountCacheKey' urls accountID"
| "keyOf (SubscribeToAccountEffects urls accountID) = createAccountCacheKey' urls accountID"
| "keyOf (SubscribeToOpenOrders urls accountID) = createAccountCacheKey' urls accountID"
| "keyOf (SubscribeToOrderbook urls sellingAsset buyingAsset) =
     createOrderbookCacheKey urls sellingAsset buyingAsset"
| "keyOf (SubscribeToAccountTransactions urls accountID) = createAccountCacheKey' urls accountID"

text \<open>The memoized function a call goes to.\<close>

datatype Memoized =
  AccountFn | AccountEffectsFn | OpenOrdersFn | OrderbookFn | AccountTransactionsFn

fun functionOf :: "SubscribeCall \<Rightarrow> Memoized" where
  "functionOf (SubscribeToAccount _ _) = AccountFn"
| "functionOf (SubscribeToAccountEffects _ _) = AccountEffectsFn"
| "functionOf (SubscribeToOpenOrders _ _) = OpenOrdersFn"
| "functionOf (SubscribeToOrderbook _ _ _) = OrderbookFn"
| "functionOf (SubscribeToAccountTransactions _ _) = AccountTransactionsFn"

text \<open>Every observable a cache holds has been created.\<close>

definition cachesSound :: "NetWorker \<Rightarrow> bool" where
  "cachesSound w =
     list_all (\<lambda>cache. list_all (\<lambda>entry. snd entry < length (observables w)) cache)
       [accountSubscriptionCache w, effectsSubscriptionCache w, orderbookSubscriptionCache w,
        ordersSubscriptionCache w, transactionsSubscriptionCache w]"

section \<open>Example data\<close>

text \<open>A transaction, a snapshot and operations on which the theorems below are instantiated.\<close>

definition exampleTransaction :: Transaction where
  "exampleTransaction = \<lparr>source = ''GA'', hash_hex = ''ab12''\<rparr>"

definition exampleAccount :: AccountResponse where
  "exampleAccount =
     \<lparr>account_id = ''GA'', sequence = ''7'', subentry_count = 1, home_domain = None,
      thresholds = \<lparr>low_threshold = 0, med_threshold = 0, high_threshold = 0\<rparr>,
      balances = [BalanceLineNative ''100'' ''0'' ''0''],
      signers = [\<lparr>type = ''ed25519_public_key'', key = ''GA'', weight = 1\<rparr>,
                 \<lparr>type = ''ed25519_public_key'', key = ''GB'', weight = 2\<rparr>]\<rparr>"

definition exampleSetOptions :: "int \<Rightarrow> SetOptions" where
  "exampleSetOptions w =
     \<lparr>SetOptions.source = None, signer = Some (Ed25519PublicKey ''GB'' (Some w)), masterWeight = Some 0,
      lowThreshold = None, medThreshold = None, highThreshold = None\<rparr>"

definition exampleAsset :: Asset where
  "exampleAsset = \<lparr>code = ''FOO'', issuer = Some ''GI''\<rparr>"

definition examplePool :: LiquidityPoolAsset where
  "examplePool = \<lparr>assetA = Asset_native, assetB = exampleAsset, fee = 30\<rparr>"

definition examplePoolHash :: "Asset \<Rightarrow> Asset \<Rightarrow> nat \<Rightarrow> string" where
  "examplePoolHash a b f = code a @ ''-'' @ code b @ ''-'' @ showNat f"

definition exampleNewAsset :: "string option \<Rightarrow> string option \<Rightarrow> error + Asset" where
  "exampleNewAsset codeArg issuerArg =
     (case (codeArg, issuerArg) of
        (Some c, Some i) \<Rightarrow>
          if c \<noteq> [] \<and> length c \<le> 12 \<and> i \<noteq> [] then Inr \<lparr>code = c, issuer = Some i\<rparr>
          else Inl (Rejected ''Asset code is invalid'')
      | _ \<Rightarrow> Inl (Rejected ''Asset code is invalid''))"

definition exampleChangeTrust :: "ChangeTrustLine \<Rightarrow> string \<Rightarrow> ChangeTrust" where
  "exampleChangeTrust l limitString = \<lparr>ChangeTrust.source = None, line = l, limit = limitString\<rparr>"

section \<open>Retiring stale updates\<close>

lemma indexOf_ge: "indexOf xs x \<ge> -1"
  by (induction xs) (auto simp: Let_def)

lemma indexOf_member: "indexOf xs x > -1 \<longleftrightarrow> x \<in> set xs"
proof (induction xs)
  case Nil
  show ?case by simp
next
  case (Cons y ys)
  have "indexOf ys x \<ge> -1" by (rule indexOf_ge)
  with Cons show ?case by (auto simp: Let_def)
qed

lemma isStale_iff:
  "isStale url hashes e \<longleftrightarrow> frontierURL e = url \<and> transactionHash e \<in> set hashes"
  by (simp add: isStale_def indexOf_member)

lemma filter_same_length: "length (filter P xs) = length xs \<Longrightarrow> filter P xs = xs"
proof (induction xs)
  case Nil
  show ?case by simp
next
  case (Cons x xs)
  have le: "length (filter P xs) \<le> length xs" by (rule length_filter_le)
  show ?case
  proof (cases "P x")
    case True
    with Cons show ?thesis by simp
  next
    case False
    with Cons.prems le show ?thesis by simp
  qed
qed

lemma removeStaleLoop_result:
  "set ks \<subseteq> fst ` set m \<Longrightarrow>
   \<exists>m'. removeStaleLoop url hashes m ks = Inr m'
      \<and> map fst m' = map fst m
      \<and> (\<forall>k. map_of m' k =
            (if k \<in> set ks
             then map_option (filter (\<lambda>e. \<not> isStale url hashes e)) (map_of m k)
             else map_of m k))"
proof (induction ks arbitrary: m)
  case Nil
  show ?case by simp
next
  case (Cons k ks)
  let ?keep = "filter (\<lambda>e. \<not> isStale url hashes e)"
  from Cons.prems have "k \<in> fst ` set m" by simp
  then obtain prev where prev: "map_of m k = Some prev"
    by (metis domD dom_map_of_conv_image_fst)
  define m1 where
    "m1 = (if length (?keep prev) \<noteq> length prev then AList.update k (?keep prev) m else m)"
  have keys1: "map fst m1 = map fst m"
    using \<open>k \<in> fst ` set m\<close> by (simp add: m1_def update_keys)
  have look1: "map_of m1 = (map_of m)(k \<mapsto> ?keep prev)"
  proof (cases "length (?keep prev) \<noteq> length prev")
    case True
    then show ?thesis by (simp add: m1_def update_conv')
  next
    case False
    then have "?keep prev = prev" by (simp add: filter_same_length)
    with False prev show ?thesis by (auto simp: m1_def)
  qed
  have "set ks \<subseteq> fst ` set m1"
  proof -
    have "fst ` set m1 = fst ` set m" using keys1 by (metis set_map)
    with Cons.prems show ?thesis by simp
  qed
  from Cons.IH [OF this] obtain m' where
    run: "removeStaleLoop url hashes m1 ks = Inr m'" and
    keys: "map fst m' = map fst m1" and
    look: "\<forall>k'. map_of m' k' =
             (if k' \<in> set ks then map_option ?keep (map_of m1 k') else map_of m1 k')"
    by blast
  have "removeStaleLoop url hashes m (k # ks) = Inr m'"
    using prev run by (simp add: m1_def Let_def)
  moreover have "map fst m' = map fst m" using keys keys1 by simp
  moreover have "\<forall>k'. map_of m' k' =
      (if k' \<in> set (k # ks) then map_option ?keep (map_of m k') else map_of m k')"
    using look prev by (auto simp: look1)
  ultimately show ?case by blast
qed

lemma removeStaleUpdates_result:
  "\<exists>c'. removeStaleUpdates c u H = Inr c'
     \<and> subject c' = subject c
     \<and> map fst (updates c') = map fst (updates c)
     \<and> (\<forall>selector. map_of (updates c') selector =
           map_option (filter (\<lambda>e. \<not> (frontierURL e = u \<and> transactionHash e \<in> set H)))
             (map_of (updates c) selector))"
proof -
  have "set (map fst (updates c)) \<subseteq> fst ` set (updates c)" by simp
  from removeStaleLoop_result [OF this, of u H] obtain m' where
    run: "removeStaleLoop u H (updates c) (map fst (updates c)) = Inr m'" and
    keys: "map fst m' = map fst (updates c)" and
    look: "\<forall>k. map_of m' k =
             (if k \<in> set (map fst (updates c))
              then map_option (filter (\<lambda>e. \<not> isStale u H e)) (map_of (updates c) k)
              else map_of (updates c) k)"
    by blast
  have absent: "map_of (updates c) k = None" if "k \<notin> set (map fst (updates c))" for k
    using that by (simp add: map_of_eq_None_iff)
  have "\<forall>k. map_of m' k =
      map_option (filter (\<lambda>e. \<not> (frontierURL e = u \<and> transactionHash e \<in> set H)))
        (map_of (updates c) k)"
    using look absent by (auto simp: isStale_iff)
  with run keys show ?thesis
    by (simp add: removeStaleUpdates_def)
qed

text \<open>
  C1. In every state of the ledger, for every endpoint URL \<open>u\<close> and every list of hashes
  \<open>H\<close>, \<open>removeStaleUpdates\<close> succeeds, keeps the keys of the map and the broadcast log,
  and leaves under every key the list that was there with exactly the entries removed
  whose \<open>frontierURL\<close> is \<open>u\<close> and whose \<open>transactionHash\<close> is a member of \<open>H\<close>;
  the other entries stay, in their order.
\<close>

theorem removeStaleUpdates_removes_exactly:
  "\<exists>c'. removeStaleUpdates c u H = Inr c'
     \<and> subject c' = subject c
     \<and> map fst (updates c') = map fst (updates c)
     \<and> (\<forall>selector. map_of (updates c') selector =
           map_option (filter (\<lambda>e. \<not> (frontierURL e = u \<and> transactionHash e \<in> set H)))
             (map_of (updates c) selector))"
  by (rule removeStaleUpdates_result)

theorem removeStaleUpdates_removes_exactly_witness:
  "removeStaleUpdates
     \<lparr>updates = [(''u/accounts/A'',
        [\<lparr>apply = Suc, effectsAccountID = ''A'', frontierURL = ''u'', title = ''t1'', transactionHash = ''h1''\<rparr>,
         \<lparr>apply = Suc, effectsAccountID = ''A'', frontierURL = ''u'', title = ''t2'', transactionHash = ''h2''\<rparr>])],
      subject = []\<rparr> ''u'' [''h1'']
   = Inr \<lparr>updates = [(''u/accounts/A'',
        [\<lparr>apply = Suc, effectsAccountID = ''A'', frontierURL = ''u'', title = ''t2'', transactionHash = ''h2''\<rparr>])],
      subject = []\<rparr>"
  using removeStaleUpdates_removes_exactly
    [of "\<lparr>updates = [(''u/accounts/A'',
        [\<lparr>apply = Suc, effectsAccountID = ''A'', frontierURL = ''u'', title = ''t1'', transactionHash = ''h1''\<rparr>,
         \<lparr>apply = Suc, effectsAccountID = ''A'', frontierURL = ''u'', title = ''t2'', transactionHash = ''h2''\<rparr>])],
      subject = []\<rparr>" "''u''" "[''h1'']"]
  by (simp add: removeStaleUpdates_def isStale_def Let_def)

section \<open>Composition in insertion order\<close>

lemma getUpdates_addUpdate:
  "getUpdates (addUpdate c U) url acct =
     (if createAccountCacheKey U = createAccountCacheKeyByFilter url acct
      then getUpdates c url acct @ [U]
      else getUpdates c url acct)"
  by (simp add: getUpdates_def addUpdate_def Let_def update_conv')

lemma getUpdates_addUpdates:
  "\<forall>U\<in>set Us. frontierURL U = url \<and> effectsAccountID U = acct \<Longrightarrow>
   getUpdates (addUpdates c Us) url acct = getUpdates c url acct @ Us"
proof (induction Us arbitrary: c)
  case Nil
  show ?case by (simp add: addUpdates_def)
next
  case (Cons U Us)
  have key: "createAccountCacheKey U = createAccountCacheKeyByFilter url acct"
    using Cons.prems by (simp add: createAccountCacheKey_def)
  have "getUpdates (addUpdates (addUpdate c U) Us) url acct = getUpdates (addUpdate c U) url acct @ Us"
    using Cons.IH [of "addUpdate c U"] Cons.prems by simp
  then show ?case
    by (simp add: addUpdates_def getUpdates_addUpdate key)
qed

lemma getUpdates_removeStaleUpdates:
  "removeStaleUpdates c u H = Inr c' \<Longrightarrow>
   getUpdates c' url acct =
     filter (\<lambda>e. \<not> (frontierURL e = u \<and> transactionHash e \<in> set H)) (getUpdates c url acct)"
proof -
  assume run: "removeStaleUpdates c u H = Inr c'"
  have keep: "map_of m' k = map_option (filter P) (map_of m k) \<Longrightarrow>
      (case map_of m' k of Some us \<Rightarrow> us | None \<Rightarrow> []) =
      filter P (case map_of m k of Some us \<Rightarrow> us | None \<Rightarrow> [])"
    for m' m :: "(string \<times> 'a OptimisticUpdate list) list" and k P
    by (cases "map_of m k") simp_all
  obtain c'' where c'': "removeStaleUpdates c u H = Inr c''" and
    look: "\<forall>selector. map_of (updates c'') selector =
           map_option (filter (\<lambda>e. \<not> (frontierURL e = u \<and> transactionHash e \<in> set H)))
             (map_of (updates c) selector)"
    using removeStaleUpdates_result [of c u H] by blast
  from run c'' have "c'' = c'" by simp
  with look show ?thesis
    unfolding getUpdates_def by (intro keep) simp
qed

text \<open>
  C2. Let \<open>Us\<close> be optimistic updates that all carry the endpoint \<open>url\<close> and the account of
  the snapshot \<open>snapshot\<close>, added by one \<open>addUpdates\<close> to a ledger \<open>c\<close>. Then \<open>getUpdates\<close>
  for that key returns what the ledger held there followed by \<open>Us\<close> in the order given
  (just \<open>Us\<close> when the ledger held nothing there), and
  \<open>optimisticallyUpdateAccountData\<close> is the left fold of the \<open>apply\<close> functions over
  \<open>snapshot\<close> in that order. After \<open>removeStaleUpdates u H\<close>, which always succeeds,
  \<open>getUpdates\<close> returns the same list without the entries of endpoint \<open>u\<close> whose hash
  is in \<open>H\<close>, and the fold is the fold of those remaining updates alone.
\<close>

theorem updates_fold_in_insertion_order:
  assumes same: "\<forall>U\<in>set Us. frontierURL U = url \<and> effectsAccountID U = account_id snapshot"
  shows "getUpdates (addUpdates c Us) url (account_id snapshot)
           = getUpdates c url (account_id snapshot) @ Us
       \<and> optimisticallyUpdateAccountData (addUpdates c Us) url snapshot
           = foldl (\<lambda>s U. apply U s) snapshot (getUpdates c url (account_id snapshot) @ Us)
       \<and> (\<exists>c'. removeStaleUpdates (addUpdates c Us) u H = Inr c'
            \<and> getUpdates c' url (account_id snapshot)
                = filter (\<lambda>e. \<not> (frontierURL e = u \<and> transactionHash e \<in> set H))
                    (getUpdates c url (account_id snapshot) @ Us)
            \<and> optimisticallyUpdateAccountData c' url snapshot
                = foldl (\<lambda>s U. apply U s) snapshot
                    (filter (\<lambda>e. \<not> (frontierURL e = u \<and> transactionHash e \<in> set H))
                       (getUpdates c url (account_id snapshot) @ Us)))"
proof -
  have added: "getUpdates (addUpdates c Us) url (account_id snapshot)
      = getUpdates c url (account_id snapshot) @ Us"
    using same by (rule getUpdates_addUpdates)
  have folded: "optimisticallyUpdateAccountData (addUpdates c Us) url snapshot
      = foldl (\<lambda>s U. apply U s) snapshot (getUpdates c url (account_id snapshot) @ Us)"
    unfolding optimisticallyUpdateAccountData_def Let_def added ..
  obtain c' where run: "removeStaleUpdates (addUpdates c Us) u H = Inr c'"
    using removeStaleUpdates_result [of "addUpdates c Us" u H] by blast
  have live: "getUpdates c' url (account_id snapshot)
      = filter (\<lambda>e. \<not> (frontierURL e = u \<and> transactionHash e \<in> set H))
          (getUpdates c url (account_id snapshot) @ Us)"
    using getUpdates_removeStaleUpdates [OF run, of url "account_id snapshot"] added by simp
  have "optimisticallyUpdateAccountData c' url snapshot
      = foldl (\<lambda>s U. apply U s) snapshot
          (filter (\<lambda>e. \<not> (frontierURL e = u \<and> transactionHash e \<in> set H))
             (getUpdates c url (account_id snapshot) @ Us))"
    unfolding optimisticallyUpdateAccountData_def Let_def live ..
  with added folded run live show ?thesis by blast
qed

theorem updates_fold_in_insertion_order_witness:
  "optimisticallyUpdateAccountData
     (addUpdates emptyCache
       [\<lparr>apply = (\<lambda>s. s\<lparr>sequence := sequence s @ ''a''\<rparr>), effectsAccountID = ''G1'',
          frontierURL = ''u'', title = ''t1'', transactionHash = ''h1''\<rparr>,
        \<lparr>apply = (\<lambda>s. s\<lparr>sequence := sequence s @ ''b''\<rparr>), effectsAccountID = ''G1'',
          frontierURL = ''u'', title = ''t2'', transactionHash = ''h2''\<rparr>])
     ''u''
     \<lparr>account_id = ''G1'', sequence = ''x'', subentry_count = 0, home_domain = None,
      thresholds = \<lparr>low_threshold = 0, med_threshold = 0, high_threshold = 0\<rparr>,
      balances = [], signers = []\<rparr>
   = \<lparr>account_id = ''G1'', sequence = ''xab'', subentry_count = 0, home_domain = None,
      thresholds = \<lparr>low_threshold = 0, med_threshold = 0, high_threshold = 0\<rparr>,
      balances = [], signers = []\<rparr>"
  using updates_fold_in_insertion_order
    [of "[\<lparr>apply = (\<lambda>s. s\<lparr>sequence := sequence s @ ''a''\<rparr>), effectsAccountID = ''G1'',
            frontierURL = ''u'', title = ''t1'', transactionHash = ''h1''\<rparr>,
          \<lparr>apply = (\<lambda>s. s\<lparr>sequence := sequence s @ ''b''\<rparr>), effectsAccountID = ''G1'',
            frontierURL = ''u'', title = ''t2'', transactionHash = ''h2''\<rparr>]"
        "''u''"
        "\<lparr>account_id = ''G1'', sequence = ''x'', subentry_count = 0, home_domain = None,
          thresholds = \<lparr>low_threshold = 0, med_threshold = 0, high_threshold = 0\<rparr>,
          balances = [], signers = []\<rparr>"
        emptyCache "''u''" "[''h1'']"]
  by (simp add: getUpdates_def emptyCache_def)

lemmas example_defs = exampleTransaction_def exampleAccount_def exampleSetOptions_def
  exampleAsset_def examplePool_def exampleChangeTrust_def

lemma BigNumber_eq_zero_examples:
  "BigNumber_eq_zero ''0'' = Inr True" "BigNumber_eq_zero ''0.0000000'' = Inr True"
  "BigNumber_eq_zero ''1000'' = Inr False" "BigNumber_eq_zero ''1000.0000000'' = Inr False"
  "BigNumber_eq_zero ''abc'' = Inl (Rejected ''[big.js] Invalid number'')"
  by (simp_all add: BigNumber_eq_zero_def validMantissa_def validExponent_def isDigit_def)

section \<open>Idempotence of the translated updates\<close>


lemma addSigner_idem:
  "apply (addSigner url operation k w tx) (apply (addSigner url operation k w tx) s)
     = apply (addSigner url operation k w tx) s"
  by (simp add: addSigner_def Let_def)

lemma removeSigner_idem:
  "apply (removeSigner url operation k tx) (apply (removeSigner url operation k tx) s)
     = apply (removeSigner url operation k tx) s"
  by (simp add: removeSigner_def)

lemma setMasterWeight_idem:
  "apply (setMasterWeight url operation w tx) (apply (setMasterWeight url operation w tx) s)
     = apply (setMasterWeight url operation w tx) s"
  by (simp add: setMasterWeight_def Let_def comp_def cong: map_cong)

lemma setThresholds_idem:
  "apply (setThresholds url operation tx) (apply (setThresholds url operation tx) s)
     = apply (setThresholds url operation tx) s"
  by (simp add: setThresholds_def Let_def split: option.splits)

lemma removeTrustline_idem:
  "apply (removeTrustline h url operation tx) (apply (removeTrustline h url operation tx) s)
     = apply (removeTrustline h url operation tx) s"
  by (simp add: removeTrustline_def)

lemma newBalance_matches:
  "trustlineMatches h operation
     (case line operation of
        LiquidityPoolLine p \<Rightarrow>
          BalanceLineLiquidityPool ''0'' False False False 0 (limit operation)
            (getLiquidityPoolIdFromAsset h p)
      | AssetLine a \<Rightarrow>
          BalanceLineAsset (code a) (issuer a) credit_alphanum12 ''0'' ''0''
            False False 0 (limit operation) ''0'' False)"
  by (cases "line operation") (simp_all add: trustlineMatches_def balancelineToAsset_def)

lemma addTrustline_idem:
  "apply (addTrustline h url operation tx) (apply (addTrustline h url operation tx) s)
     = apply (addTrustline h url operation tx) s"
  using newBalance_matches [of h operation]
  by (simp add: addTrustline_def Let_def)

lemma setAccountOptions_cases:
  "u \<in> set (setAccountOptions url operation tx) \<Longrightarrow>
     (\<exists>k w. u = addSigner url operation k w tx) \<or> (\<exists>k. u = removeSigner url operation k tx)
     \<or> u = setThresholds url operation tx \<or> (\<exists>w. u = setMasterWeight url operation w tx)"
  by (auto simp: setAccountOptions_def thresholdUpdates_def Let_def split: option.splits if_splits)

lemma changeTrust_cases:
  "changeTrust h url operation tx = Inr us \<Longrightarrow> u \<in> set us \<Longrightarrow>
     u = removeTrustline h url operation tx \<or> u = addTrustline h url operation tx"
  by (auto simp: changeTrust_def split: sum.splits bool.splits)

text \<open>
  C3. Every update that \<open>setAccountOptions\<close> returns (add signer, remove signer, set
  thresholds, set master weight) and every update that \<open>changeTrust\<close> returns (add
  trustline, remove trustline) has an idempotent \<open>apply\<close>: on every snapshot, applying it
  twice gives what applying it once gives.
\<close>

theorem translators_idempotent:
  "(\<forall>u\<in>set (setAccountOptions url setOp tx). \<forall>s. apply u (apply u s) = apply u s)
   \<and> (\<forall>us. changeTrust h url trustOp tx = Inr us \<longrightarrow>
         (\<forall>u\<in>set us. \<forall>s. apply u (apply u s) = apply u s))"
proof (intro conjI ballI allI impI)
  fix u s
  assume "u \<in> set (setAccountOptions url setOp tx)"
  from setAccountOptions_cases [OF this] show "apply u (apply u s) = apply u s"
    using addSigner_idem removeSigner_idem setThresholds_idem setMasterWeight_idem by metis
next
  fix us u s
  assume "changeTrust h url trustOp tx = Inr us" "u \<in> set us"
  from changeTrust_cases [OF this] show "apply u (apply u s) = apply u s"
    using removeTrustline_idem addTrustline_idem by metis
qed


theorem translators_idempotent_witness:
  "(let u = hd (setAccountOptions ''u'' (exampleSetOptions 2) exampleTransaction)
    in signers (apply u exampleAccount) =
         [\<lparr>type = ''ed25519_public_key'', key = ''GA'', weight = 1\<rparr>,
          \<lparr>type = ''ed25519_public_key'', key = ''GB'', weight = 2\<rparr>]
       \<and> apply u (apply u exampleAccount) = apply u exampleAccount)
   \<and> (\<exists>u. changeTrust examplePoolHash ''u'' (exampleChangeTrust (AssetLine exampleAsset) ''1000'') exampleTransaction = Inr [u]
         \<and> apply u (apply u exampleAccount) = apply u exampleAccount)"
  using translators_idempotent
    [of "''u''" "exampleSetOptions 2" exampleTransaction examplePoolHash
        "exampleChangeTrust (AssetLine exampleAsset) ''1000''"]
  by (simp add: setAccountOptions_def ed25519SignerWithWeight_def example_defs addSigner_def
        changeTrust_def BigNumber_eq_zero_examples Let_def)

section \<open>What \<open>setOptions\<close> is translated to\<close>

text \<open>
  C4. For every \<open>setOptions\<close> operation: with an ed25519 signer of weight 0 the first
  update returned removes the ed25519 entries of that key from \<open>signers\<close> and changes
  nothing else; with an ed25519 signer of positive weight \<open>w\<close> the first update returned
  drops the entries of that key and appends one ed25519 entry of that key with weight \<open>w\<close>;
  and with a master weight \<open>w\<close> the last update returned affects the operation's (or else
  the transaction's) source account and sets the weight of that account's ed25519 entry to
  \<open>w\<close>, every other entry staying as it is, in place.
\<close>

theorem setOptions_translation:
  "(signer operation = Some (Ed25519PublicKey k (Some 0)) \<longrightarrow>
      (\<exists>u rest. setAccountOptions url operation tx = u # rest
         \<and> (\<forall>s. apply u s = s\<lparr>signers :=
               filter (\<lambda>x. \<not> (type x = ''ed25519_public_key'' \<and> key x = k)) (signers s)\<rparr>)))
   \<and> (\<forall>w. signer operation = Some (Ed25519PublicKey k (Some w)) \<and> w > 0 \<longrightarrow>
      (\<exists>u rest. setAccountOptions url operation tx = u # rest
         \<and> (\<forall>s. apply u s = s\<lparr>signers :=
               filter (\<lambda>x. key x \<noteq> k) (signers s)
               @ [\<lparr>type = ''ed25519_public_key'', key = k, weight = w\<rparr>]\<rparr>)))
   \<and> (\<forall>w. masterWeight operation = Some w \<longrightarrow>
      (\<exists>u before. setAccountOptions url operation tx = before @ [u]
         \<and> effectsAccountID u = sourceOr (SetOptions.source operation) tx
         \<and> (\<forall>s. apply u s = s\<lparr>signers :=
               map (\<lambda>x. if type x = ''ed25519_public_key''
                            \<and> key x = sourceOr (SetOptions.source operation) tx
                         then x\<lparr>weight := w\<rparr> else x)
                 (signers s)\<rparr>)))"
proof (intro conjI allI impI)
  assume "signer operation = Some (Ed25519PublicKey k (Some 0))"
  then have "setAccountOptions url operation tx =
      removeSigner url operation k tx #
      (case masterWeight operation of Some w \<Rightarrow> [setMasterWeight url operation w tx] | None \<Rightarrow> [])"
    by (simp add: setAccountOptions_def ed25519SignerWithWeight_def)
  moreover have "\<forall>s. apply (removeSigner url operation k tx) s = s\<lparr>signers :=
      filter (\<lambda>x. \<not> (type x = ''ed25519_public_key'' \<and> key x = k)) (signers s)\<rparr>"
    by (simp add: removeSigner_def)
  ultimately show "\<exists>u rest. setAccountOptions url operation tx = u # rest
         \<and> (\<forall>s. apply u s = s\<lparr>signers :=
               filter (\<lambda>x. \<not> (type x = ''ed25519_public_key'' \<and> key x = k)) (signers s)\<rparr>)"
    by blast
next
  fix w :: int
  assume "signer operation = Some (Ed25519PublicKey k (Some w)) \<and> w > 0"
  then have "setAccountOptions url operation tx =
      addSigner url operation k w tx #
      (case masterWeight operation of Some w \<Rightarrow> [setMasterWeight url operation w tx] | None \<Rightarrow> [])"
    by (simp add: setAccountOptions_def ed25519SignerWithWeight_def)
  moreover have "\<forall>s. apply (addSigner url operation k w tx) s = s\<lparr>signers :=
      filter (\<lambda>x. key x \<noteq> k) (signers s)
      @ [\<lparr>type = ''ed25519_public_key'', key = k, weight = w\<rparr>]\<rparr>"
    by (simp add: addSigner_def Let_def)
  ultimately show "\<exists>u rest. setAccountOptions url operation tx = u # rest
         \<and> (\<forall>s. apply u s = s\<lparr>signers :=
               filter (\<lambda>x. key x \<noteq> k) (signers s)
               @ [\<lparr>type = ''ed25519_public_key'', key = k, weight = w\<rparr>]\<rparr>)"
    by blast
next
  fix w :: int
  assume "masterWeight operation = Some w"
  then have "\<exists>before. setAccountOptions url operation tx =
      before @ [setMasterWeight url operation w tx]"
    by (simp add: setAccountOptions_def Let_def)
  moreover have "effectsAccountID (setMasterWeight url operation w tx)
      = sourceOr (SetOptions.source operation) tx"
    by (simp add: setMasterWeight_def Let_def)
  moreover have "\<forall>s. apply (setMasterWeight url operation w tx) s = s\<lparr>signers :=
      map (\<lambda>x. if type x = ''ed25519_public_key''
                   \<and> key x = sourceOr (SetOptions.source operation) tx
                then x\<lparr>weight := w\<rparr> else x)
        (signers s)\<rparr>"
    by (simp add: setMasterWeight_def Let_def)
  ultimately show "\<exists>u before. setAccountOptions url operation tx = before @ [u]
         \<and> effectsAccountID u = sourceOr (SetOptions.source operation) tx
         \<and> (\<forall>s. apply u s = s\<lparr>signers :=
               map (\<lambda>x. if type x = ''ed25519_public_key''
                            \<and> key x = sourceOr (SetOptions.source operation) tx
                         then x\<lparr>weight := w\<rparr> else x)
                 (signers s)\<rparr>)"
    by blast
qed

theorem setOptions_translation_witness:
  "signers (apply (hd (setAccountOptions ''u'' (exampleSetOptions 0) exampleTransaction)) exampleAccount)
     = [\<lparr>type = ''ed25519_public_key'', key = ''GA'', weight = 1\<rparr>]
   \<and> signers (apply (hd (setAccountOptions ''u'' (exampleSetOptions 5) exampleTransaction)) exampleAccount)
     = [\<lparr>type = ''ed25519_public_key'', key = ''GA'', weight = 1\<rparr>,
        \<lparr>type = ''ed25519_public_key'', key = ''GB'', weight = 5\<rparr>]
   \<and> signers (apply (last (setAccountOptions ''u'' (exampleSetOptions 5) exampleTransaction)) exampleAccount)
     = [\<lparr>type = ''ed25519_public_key'', key = ''GA'', weight = 0\<rparr>,
        \<lparr>type = ''ed25519_public_key'', key = ''GB'', weight = 2\<rparr>]"
  using setOptions_translation [of "exampleSetOptions 0" "''GB''" "''u''" exampleTransaction]
    setOptions_translation [of "exampleSetOptions 5" "''GB''" "''u''" exampleTransaction]
  by (simp add: setAccountOptions_def ed25519SignerWithWeight_def example_defs addSigner_def
        removeSigner_def setMasterWeight_def sourceOr_def Let_def)

section \<open>What \<open>changeTrust\<close> is translated to\<close>

text \<open>
  C5. A \<open>changeTrust\<close> with limit \<open>0\<close> is translated to \<open>removeTrustline\<close>, whose filter
  also drops every balance line of the other kind: removing a pool's trustline from the
  example account, which holds only the native balance, leaves no balance at all, and
  removing the trustline of the asset \<open>FOO\<close> from an account holding the native balance
  and shares of some pool drops the pool shares.
\<close>

theorem removeTrustline_drops_other_kinds:
  "changeTrust h ''u'' (exampleChangeTrust (LiquidityPoolLine examplePool) ''0'') exampleTransaction
     = Inr [removeTrustline h ''u'' (exampleChangeTrust (LiquidityPoolLine examplePool) ''0'') exampleTransaction]
   \<and> balances (apply (removeTrustline h ''u'' (exampleChangeTrust (LiquidityPoolLine examplePool) ''0'') exampleTransaction)
        exampleAccount) = []
   \<and> changeTrust h ''u'' (exampleChangeTrust (AssetLine exampleAsset) ''0'') exampleTransaction
     = Inr [removeTrustline h ''u'' (exampleChangeTrust (AssetLine exampleAsset) ''0'') exampleTransaction]
   \<and> balances (apply (removeTrustline h ''u'' (exampleChangeTrust (AssetLine exampleAsset) ''0'') exampleTransaction)
        (exampleAccount\<lparr>balances :=
           [BalanceLineNative ''100'' ''0'' ''0'',
            BalanceLineLiquidityPool ''5'' True True False 9 ''900'' ''other-pool'']\<rparr>))
     = [BalanceLineNative ''100'' ''0'' ''0'']"
  by (simp add: changeTrust_def BigNumber_eq_zero_examples removeTrustline_def trustlineKept_def
        example_defs balancelineToAsset_def Asset_native_def)

text \<open>
  The other half of the translation holds: a non-zero limit is translated to
  \<open>addTrustline\<close> alone, which appends a line with balance \<open>0\<close> and the operation's
  limit when no line of the operation's asset (or pool) is there, and otherwise leaves
  the balances as they are.
\<close>

lemma changeTrust_nonzero_limit:
  "BigNumber_eq_zero (ChangeTrust.limit operation) = Inr False \<Longrightarrow>
   changeTrust h u operation tx = Inr [addTrustline h u operation tx]"
  by (simp add: changeTrust_def)

lemma addTrustline_asset_absent:
  assumes op_line: "line operation = AssetLine a"
      and credit: "issuer a \<noteq> None"
      and absent: "\<forall>b\<in>set (balances s). \<forall>t bal bl au am lm l sl cl.
                     b \<noteq> BalanceLineAsset (code a) (issuer a) t bal bl au am lm l sl cl"
  shows "balances (apply (addTrustline h u operation tx) s) =
           balances s @ [BalanceLineAsset (code a) (issuer a) credit_alphanum12 ''0'' ''0''
                           False False 0 (ChangeTrust.limit operation) ''0'' False]"
proof -
  have "\<not> trustlineMatches h operation b" if "b \<in> set (balances s)" for b
  proof (cases b)
    case (BalanceLineNative x y z)
    with op_line credit show ?thesis
      by (auto simp: trustlineMatches_def balancelineToAsset_def Asset_native_def)
  next
    case (BalanceLineAsset c i t bal bl au am lm l sl cl)
    have "\<not> (c = code a \<and> i = issuer a)"
      using absent that BalanceLineAsset by blast
    then have "\<lparr>code = c, issuer = i\<rparr> \<noteq> a" by auto
    with op_line BalanceLineAsset show ?thesis
      by (simp add: trustlineMatches_def balancelineToAsset_def)
  next
    case (BalanceLineLiquidityPool bal au am cl lm l pid)
    with op_line show ?thesis by (simp add: trustlineMatches_def)
  qed
  then have "\<not> list_ex (trustlineMatches h operation) (balances s)"
    by (simp add: list_ex_iff)
  with op_line show ?thesis by (simp add: addTrustline_def Let_def)
qed

lemma addTrustline_present:
  "list_ex (trustlineMatches h operation) (balances s) \<Longrightarrow>
   balances (apply (addTrustline h u operation tx) s) = balances s"
  by (simp add: addTrustline_def Let_def)

section \<open>The iterations of the wait for an account\<close>

text \<open>Rounding a product loses at most the fraction \<open>2^-53\<close> of it.\<close>

declare bitLength.simps [simp del]

lemma bitLength_bounds: "0 < n \<Longrightarrow> 2 ^ (bitLength n - 1) \<le> n \<and> n < 2 ^ bitLength n"
proof (induction n rule: bitLength.induct)
  case (1 n)
  then have n0: "n \<noteq> 0" by simp
  have bl: "bitLength n = Suc (bitLength (n div 2))"
    using n0 by (subst bitLength.simps) simp
  show ?case
  proof (cases "n div 2 = 0")
    case True
    then have one: "bitLength n = Suc 0" by (simp add: bl bitLength.simps [of 0])
    from True 1(2) have "n = 1" by (simp add: div_eq_0_iff)
    then show ?thesis unfolding one by simp
  next
    case False
    then have pos: "0 < n div 2" by simp
    define P :: nat where "P = 2 ^ (bitLength (n div 2) - 1)"
    have bpos: "0 < bitLength (n div 2)"
      using False by (subst bitLength.simps) simp
    then have pw: "2 ^ bitLength (n div 2) = 2 * P"
      unfolding P_def by (cases "bitLength (n div 2)") simp_all
    from 1(1) [OF n0 pos] have ih: "P \<le> n div 2" "n div 2 < 2 * P"
      unfolding P_def [symmetric] pw by simp_all
    have "2 * P \<le> n" "n < 4 * P" using ih by arith+
    then show ?thesis by (simp add: bl pw)
  qed
qed

lemma roundHalfEven_lower:
  assumes k: "0 < k"
  shows "m \<le> roundHalfEven m k * 2 ^ k + 2 ^ (k - 1)"
proof -
  define H :: nat where "H = 2 ^ (k - 1)"
  define q where "q = m div 2 ^ k"
  define r where "r = m mod 2 ^ k"
  define Q where "Q = q * 2 ^ k"
  have pw: "(2::nat) ^ k = 2 * H" unfolding H_def using k by (cases k) simp_all
  have m: "m = Q + r" unfolding Q_def q_def r_def by (rule div_mult_mod_eq [symmetric])
  have next_q: "(q + 1) * 2 ^ k = Q + 2 * H" by (simp add: Q_def pw algebra_simps)
  have res: "roundHalfEven m k = q \<and> r \<le> H \<or> roundHalfEven m k = q + 1"
    using k by (auto simp: roundHalfEven_def Let_def q_def r_def H_def)
  then show ?thesis
  proof
    assume a: "roundHalfEven m k = q \<and> r \<le> H"
    then have "roundHalfEven m k * 2 ^ k = Q" by (simp add: Q_def)
    moreover from a m have "m \<le> Q + H" by simp
    ultimately show ?thesis unfolding H_def by simp
  next
    assume "roundHalfEven m k = q + 1"
    then have "roundHalfEven m k * 2 ^ k = Q + 2 * H" using next_q by simp
    moreover have "r < 2 * H" unfolding r_def pw [symmetric] by simp
    then have "m \<le> Q + 2 * H + H" using m by simp
    ultimately show ?thesis unfolding H_def by simp
  qed
qed

lemma roundTo53_lower:
  "real m * 2 powi e * (1 - 1 / 2 ^ 53) \<le> valueOf (roundTo53 m e)"
proof (cases "bitLength m \<le> 53")
  case True
  then have "roundTo53 m e = Double m e" by (simp add: roundTo53_def roundHalfEven_def)
  moreover have "real m * 2 powi e * (1 - 1 / 2 ^ 53) \<le> real m * 2 powi e"
    by (simp add: mult_left_le)
  ultimately show ?thesis by (simp add: valueOf_def)
next
  case False
  define k where "k = bitLength m - 53"
  from False have k: "0 < k" and bl: "bitLength m = k + 53" by (simp_all add: k_def)
  then have mpos: "0 < m" by (cases "m = 0") (simp_all add: bitLength.simps [of 0])
  define R where "R = roundHalfEven m k"
  have low: "m \<le> R * 2 ^ k + 2 ^ (k - 1)" unfolding R_def using k by (rule roundHalfEven_lower)
  have "bitLength m - 1 = k + 52" using bl by simp
  moreover have "2 ^ (bitLength m - 1) \<le> m" using bitLength_bounds [OF mpos] by simp
  ultimately have big: "(2::nat) ^ (k + 52) \<le> m" by simp
  have "(2::nat) ^ (k + 52) = 2 ^ (k - 1) * 2 ^ 53"
    using k by (cases k) (simp_all add: power_add)
  with big have "real (2 ^ (k - 1) * 2 ^ 53) \<le> real m" by (metis of_nat_le_iff)
  then have half: "2 ^ (k - 1) \<le> real m / 2 ^ 53" by (simp add: field_simps)
  from low have "real m \<le> real (R * 2 ^ k + 2 ^ (k - 1))" by (metis of_nat_le_iff)
  then have "real m \<le> real R * 2 ^ k + 2 ^ (k - 1)" by simp
  with half have "real m * (1 - 1 / 2 ^ 53) \<le> real R * 2 ^ k" by (simp add: algebra_simps)
  then have "real m * (1 - 1 / 2 ^ 53) * 2 powi e \<le> real R * 2 ^ k * 2 powi e"
    by (rule mult_right_mono) simp
  moreover have "valueOf (roundTo53 m e) = real R * 2 ^ k * 2 powi e"
    by (simp add: roundTo53_def valueOf_def k_def [symmetric] R_def power_int_add)
  ultimately show ?thesis by (simp add: algebra_simps)
qed


lemma valueOf_Math_min: "valueOf (Math_min a b) = min (valueOf a) (valueOf b)"
  by (simp add: Math_min_def min_def)

lemma valueOf_times_lower:
  "valueOf a * valueOf b * (1 - 1 / 2 ^ 53) \<le> valueOf (Double_times a b)"
proof -
  have "valueOf a * valueOf b
      = real (mantissa a * mantissa b) * 2 powi (exponent a + exponent b)"
    by (simp add: valueOf_def power_int_add)
  then show ?thesis
    unfolding Double_times_def using roundTo53_lower [of "mantissa a * mantissa b" "exponent a + exponent b"]
    by simp
qed

lemma valueOf_constants:
  "valueOf (Double 2500 0) = 2500" "valueOf (Double 5000 0) = 5000"
  "valueOf double_1_05 = 4728779608739021 / 2 ^ 52"
  by (simp_all add: valueOf_def double_1_05_def power_int_minus field_simps)

lemma double_1_05_nearest:
  "2 ^ 52 \<le> mantissa double_1_05 \<and> mantissa double_1_05 < 2 ^ 53
   \<and> \<bar>valueOf double_1_05 - 1.05\<bar> \<le> 1 / 2 ^ 53"
  by (simp add: valueOf_constants) (simp add: double_1_05_def)

lemma valueOf_nonneg: "0 \<le> valueOf d"
  by (simp add: valueOf_def)

lemma times_1_05_grows:
  assumes "0 < valueOf d"
  shows "valueOf d < valueOf (Double_times d double_1_05)"
proof -
  have c: "1.05 - 1 / 2 ^ 53 \<le> valueOf double_1_05"
    by (simp add: valueOf_constants)
  have "(1::real) < (1.05 - 1 / 2 ^ 53) * (1 - 1 / 2 ^ 53)" by simp
  also have "\<dots> \<le> valueOf double_1_05 * (1 - 1 / 2 ^ 53)"
    using c by (rule mult_right_mono) simp
  finally have "valueOf d * 1 < valueOf d * (valueOf double_1_05 * (1 - 1 / 2 ^ 53))"
    using assms by (simp only: mult_less_cancel_left_pos)
  also have "\<dots> \<le> valueOf (Double_times d double_1_05)"
    using valueOf_times_lower [of d double_1_05] by (simp add: mult.assoc)
  finally show ?thesis by simp
qed

lemma backoff_bounds: "2500 \<le> valueOf (backoff n) \<and> valueOf (backoff n) \<le> 5000"
proof (induction n)
  case 0
  show ?case by (simp add: valueOf_constants)
next
  case (Suc n)
  then have "valueOf (backoff n) < valueOf (Double_times (backoff n) double_1_05)"
    by (intro times_1_05_grows) simp
  with Suc show ?case by (simp add: valueOf_Math_min valueOf_constants)
qed

lemma backoff_mono: "valueOf (backoff n) \<le> valueOf (backoff (Suc n))"
proof -
  have "valueOf (backoff n) < valueOf (Double_times (backoff n) double_1_05)"
    using backoff_bounds [of n] by (intro times_1_05_grows) simp
  then show ?thesis using backoff_bounds [of n] by (simp add: valueOf_Math_min valueOf_constants)
qed

lemma backoff_strict:
  "valueOf (backoff n) < 5000 \<Longrightarrow> valueOf (backoff n) < valueOf (backoff (Suc n))"
proof -
  assume "valueOf (backoff n) < 5000"
  moreover have "valueOf (backoff n) < valueOf (Double_times (backoff n) double_1_05)"
    using backoff_bounds [of n] by (intro times_1_05_grows) simp
  ultimately show ?thesis by (simp add: valueOf_Math_min valueOf_constants)
qed

lemma bitLength_numeral [simp]:
  "bitLength (numeral k) = Suc (bitLength (numeral k div 2))"
  by (subst bitLength.simps) simp

lemma bitLength_small [simp]: "bitLength 0 = 0" "bitLength (Suc 0) = Suc 0"
  by (simp_all add: bitLength.simps [of 0] bitLength.simps [of "Suc 0"])

lemma backoff_1: "backoff 1 = Double 5772436045824000 (- 41)"
  by (simp add: Double_times_def double_1_05_def roundTo53_def roundHalfEven_def Math_min_def
        valueOf_def Let_def power_int_minus)

lemma waitLoop_absorbs_404:
  "\<forall>r\<in>set rs. status r = 404 \<Longrightarrow>
   \<forall>i<length rs. \<not> cancelRequested sc (n + i) \<Longrightarrow>
   waitLoop parse sc n (backoff m) failed delays (map Inr rs @ rest) =
   waitLoop parse sc (n + length rs) (backoff (m + length rs)) (failed \<or> rs \<noteq> [])
     (delays @ map (\<lambda>i. valueOf (backoff i)) [m..<m + length rs]) rest"
proof (induction rs arbitrary: n m failed delays)
  case Nil
  show ?case by simp
next
  case (Cons r rs)
  have nc: "\<not> cancelRequested sc n" using Cons.prems(2) by auto
  have st: "status r = 404" using Cons.prems(1) by simp
  have later: "\<forall>i<length rs. \<not> cancelRequested sc (Suc n + i)"
  proof (intro allI impI)
    fix i assume "i < length rs"
    then have "Suc i < length (r # rs)" by simp
    with Cons.prems(2) have "\<not> cancelRequested sc (n + Suc i)" by blast
    then show "\<not> cancelRequested sc (Suc n + i)" by simp
  qed
  have step: "waitLoop parse sc n (backoff m) failed delays (map Inr (r # rs) @ rest) =
      waitLoop parse sc (Suc n) (backoff (Suc m)) True (delays @ [valueOf (backoff m)]) (map Inr rs @ rest)"
    using nc st by simp
  have ih: "waitLoop parse sc (Suc n) (backoff (Suc m)) True (delays @ [valueOf (backoff m)]) (map Inr rs @ rest) =
      waitLoop parse sc (Suc n + length rs) (backoff (Suc m + length rs)) (True \<or> rs \<noteq> [])
        ((delays @ [valueOf (backoff m)]) @ map (\<lambda>i. valueOf (backoff i)) [Suc m..<Suc m + length rs]) rest"
    using Cons.prems(1) later by (intro Cons.IH) auto
  have "[m..<m + length (r # rs)] = m # [Suc m..<Suc m + length rs]"
    by (subst upt_rec) simp
  then show ?case
    unfolding step ih by simp
qed

text \<open>
  The first intervals as the runtime computes them: the first five are exact, the sixth is
  already a rounded product (3190.7039062500003 when printed).
\<close>

lemma backoff_first:
  "backoff 1 = Double 5772436045824000 (- 41)"
  "backoff 2 = Double 6061057848115200 (- 41)"
  "backoff 3 = Double 6364110740520960 (- 41)"
  "backoff 4 = Double 6682316277547008 (- 41)"
  "backoff 5 = Double 7016432091424359 (- 41)"
  "backoff 6 = Double 7367253695995577 (- 41)"
proof -
  have step: "v = Double m e \<Longrightarrow>
      Math_min (Double_times v double_1_05) (Double 5000 0) = w \<Longrightarrow>
      Math_min (Double_times (Double m e) double_1_05) (Double 5000 0) = w" for v m e w
    by simp
  have eval: "Math_min (Double_times (Double m (- 41)) double_1_05) (Double 5000 0)
      = (let p = roundTo53 (m * 4728779608739021) (- 93)
         in if valueOf p \<le> 5000 then p else Double 5000 0)" for m
    by (simp add: Double_times_def double_1_05_def Math_min_def valueOf_constants Let_def)
  show b1: "backoff 1 = Double 5772436045824000 (- 41)" by (rule backoff_1)
  have s: "backoff (Suc n) = Math_min (Double_times (backoff n) double_1_05) (Double 5000 0)" for n
    by simp
  show b2: "backoff 2 = Double 6061057848115200 (- 41)"
    unfolding numeral_2_eq_2 s One_nat_def [symmetric] b1 eval
    by (simp add: roundTo53_def roundHalfEven_def valueOf_def Let_def power_int_minus)
  show b3: "backoff 3 = Double 6364110740520960 (- 41)"
    unfolding numeral_3_eq_3 s numeral_2_eq_2 [symmetric] b2 eval
    by (simp add: roundTo53_def roundHalfEven_def valueOf_def Let_def power_int_minus)
  have n4: "(4::nat) = Suc 3" and n5: "(5::nat) = Suc 4" and n6: "(6::nat) = Suc 5" by simp_all
  show b4: "backoff 4 = Double 6682316277547008 (- 41)"
    unfolding n4 s b3 eval
    by (simp add: roundTo53_def roundHalfEven_def valueOf_def Let_def power_int_minus)
  show b5: "backoff 5 = Double 7016432091424359 (- 41)"
    unfolding n5 s b4 eval
    by (simp add: roundTo53_def roundHalfEven_def valueOf_def Let_def power_int_minus)
  show "backoff 6 = Double 7367253695995577 (- 41)"
    unfolding n6 s b5 eval
    by (simp add: roundTo53_def roundHalfEven_def valueOf_def Let_def power_int_minus)
qed

text \<open>
  C7. Let the first fetches all answer 404, with no cancellation polled before them. Each
  of them is absorbed: the loop sleeps \<open>interval\<close> and goes round again, and as long as
  nothing else arrives the wait is still pending. The delays slept are the values of
  \<open>backoff 0\<close>, \<open>backoff 1\<close>, ..., the doubles that
  \<open>interval = Math.min(interval * 1.05, 5000)\<close> computes from 2500: they start at
  2500 ms, never shrink, grow at every retry while below 5000 ms, and stay at that cap.
  If the next poll of \<open>shouldCancel\<close> answers true, the wait throws \<open>Cancellation\<close>, which
  is no \<open>RequestFailedError\<close>, before any further fetch. Otherwise, if the next fetch
  answers 200, the wait returns the parsed account data (with \<open>initialFetchFailed\<close> set
  exactly when a 404 came before); if it answers any status other than 200 and 404, the
  wait throws \<open>RequestFailedError\<close> with the response's URL and status.
\<close>

theorem waitForAccountData_iterations:
  assumes notFound: "\<forall>r\<in>set rs. status r = 404"
      and quiet: "\<forall>i<length rs. \<not> cancelRequested sc i"
  shows "(\<not> cancelRequested sc (length rs) \<and> status r = 200 \<and> parse r = Inr accountData \<longrightarrow>
            waitForAccountDataUncached parse sc (map Inr rs @ Inr r # rest)
              = (Returned accountData (rs \<noteq> []), map (\<lambda>i. valueOf (backoff i)) [0..<length rs]))
       \<and> (\<not> cancelRequested sc (length rs) \<and> status r \<noteq> 200 \<and> status r \<noteq> 404 \<longrightarrow>
            waitForAccountDataUncached parse sc (map Inr rs @ Inr r # rest)
              = (Threw (RequestFailedError (response_url r) (status r)), map (\<lambda>i. valueOf (backoff i)) [0..<length rs]))
       \<and> (cancelRequested sc (length rs) \<longrightarrow>
            waitForAccountDataUncached parse sc (map Inr rs @ rest)
              = (Threw (Cancellation ''Stopping to wait for account to become present in network.''),
                 map (\<lambda>i. valueOf (backoff i)) [0..<length rs]))
       \<and> (\<not> cancelRequested sc (length rs) \<longrightarrow>
            waitForAccountDataUncached parse sc (map Inr rs)
              = (Pending, map (\<lambda>i. valueOf (backoff i)) [0..<length rs]))
       \<and> (\<forall>n. 2500 \<le> valueOf (backoff n)
              \<and> valueOf (backoff n) \<le> valueOf (backoff (Suc n))
              \<and> valueOf (backoff n) \<le> 5000
              \<and> (valueOf (backoff n) < 5000 \<longrightarrow>
                   valueOf (backoff n) < valueOf (backoff (Suc n))))
       \<and> (\<forall>msg target code. Cancellation msg \<noteq> RequestFailedError target code)"
proof -
  have run: "waitForAccountDataUncached parse sc (map Inr rs @ tail) =
      waitLoop parse sc (length rs) (backoff (length rs)) (rs \<noteq> [])
        (map (\<lambda>i. valueOf (backoff i)) [0..<length rs]) tail" for tail
    unfolding waitForAccountDataUncached_def
    using waitLoop_absorbs_404 [of rs sc 0 parse 0 False "[]" tail] notFound quiet by simp
  have "\<forall>n. 2500 \<le> valueOf (backoff n)
              \<and> valueOf (backoff n) \<le> valueOf (backoff (Suc n))
              \<and> valueOf (backoff n) \<le> 5000
              \<and> (valueOf (backoff n) < 5000 \<longrightarrow>
                   valueOf (backoff n) < valueOf (backoff (Suc n)))"
    using backoff_bounds backoff_mono backoff_strict by blast
  moreover have "waitForAccountDataUncached parse sc (map Inr rs)
              = (Pending, map (\<lambda>i. valueOf (backoff i)) [0..<length rs])" if "\<not> cancelRequested sc (length rs)"
    using run [of "[]"] that by simp
  ultimately show ?thesis
    by (simp add: run)
qed

theorem waitForAccountData_iterations_witness:
  "waitForAccountDataUncached (\<lambda>r. Inr exampleAccount) (Some (\<lambda>n. 3 \<le> n))
     [Inr \<lparr>status = 404, response_url = ''u/accounts/GA''\<rparr>,
      Inr \<lparr>status = 404, response_url = ''u/accounts/GA''\<rparr>,
      Inr \<lparr>status = 200, response_url = ''u/accounts/GA''\<rparr>]
     = (Returned exampleAccount True, [2500, 2625])
   \<and> waitForAccountDataUncached (\<lambda>r. Inr exampleAccount) (Some (\<lambda>n. 2 \<le> n))
     [Inr \<lparr>status = 404, response_url = ''u/accounts/GA''\<rparr>,
      Inr \<lparr>status = 404, response_url = ''u/accounts/GA''\<rparr>,
      Inr \<lparr>status = 200, response_url = ''u/accounts/GA''\<rparr>]
     = (Threw (Cancellation ''Stopping to wait for account to become present in network.''),
        [2500, 2625])
   \<and> waitForAccountDataUncached (\<lambda>r. Inr exampleAccount) (Some (\<lambda>n. 3 \<le> n))
     [Inr \<lparr>status = 404, response_url = ''u/accounts/GA''\<rparr>,
      Inr \<lparr>status = 404, response_url = ''u/accounts/GA''\<rparr>,
      Inr \<lparr>status = 503, response_url = ''u/accounts/GA''\<rparr>]
     = (Threw (RequestFailedError ''u/accounts/GA'' 503), [2500, 2625])"
  using waitForAccountData_iterations
    [of "[\<lparr>status = 404, response_url = ''u/accounts/GA''\<rparr>,
          \<lparr>status = 404, response_url = ''u/accounts/GA''\<rparr>]" "Some (\<lambda>n. 3 \<le> n)"
        "\<lparr>status = 200, response_url = ''u/accounts/GA''\<rparr>" "\<lambda>r. Inr exampleAccount"
        exampleAccount "[]"]
    waitForAccountData_iterations
    [of "[\<lparr>status = 404, response_url = ''u/accounts/GA''\<rparr>,
          \<lparr>status = 404, response_url = ''u/accounts/GA''\<rparr>]" "Some (\<lambda>n. 2 \<le> n)"
        "\<lparr>status = 200, response_url = ''u/accounts/GA''\<rparr>" "\<lambda>r. Inr exampleAccount"
        exampleAccount "[Inr \<lparr>status = 200, response_url = ''u/accounts/GA''\<rparr>]"]
    waitForAccountData_iterations
    [of "[\<lparr>status = 404, response_url = ''u/accounts/GA''\<rparr>,
          \<lparr>status = 404, response_url = ''u/accounts/GA''\<rparr>]" "Some (\<lambda>n. 3 \<le> n)"
        "\<lparr>status = 503, response_url = ''u/accounts/GA''\<rparr>" "\<lambda>r. Inr exampleAccount"
        exampleAccount "[]"]
  by (simp add: cancelRequested_def upt_conv_Cons valueOf_constants backoff_1 valueOf_def
        power_int_minus One_nat_def [symmetric] del: One_nat_def backoff.simps(2))

section \<open>Which endpoint the health check selects\<close>

text \<open>
  C8, as stated, fails: when the primary's check times out and the secondary answers 500,
  the function returns the primary URL, not the secondary.
\<close>

theorem failover_not_always_secondary:
  "\<not> (checkFrontierOrFailover ''https://primary'' ''https://secondary'' TimedOut (SecondaryAnswered 500)
        = Some (Inr ''https://secondary''))"
  by (simp add: checkFrontierOrFailover_def statusFine_def)

text \<open>
  C8, amended. If the primary answers within 2.5 s with a status below 300 or equal to
  404, the primary URL is returned. Otherwise the secondary is fetched, without a time
  limit: if it answers with a status below 300 or equal to 404 the secondary URL is
  returned; if it answers with any other status the primary URL is returned; if its fetch
  fails the call fails with that error; and if its fetch never settles the call never
  returns.
\<close>

theorem checkFrontierOrFailover_selection:
  "((\<exists>st. race = AnsweredInTime st \<and> (st < 300 \<or> st = 404)) \<longrightarrow>
       checkFrontierOrFailover primary secondary race fetch2 = Some (Inr primary))
   \<and> (\<not> (\<exists>st. race = AnsweredInTime st \<and> (st < 300 \<or> st = 404)) \<longrightarrow>
       (\<forall>st2. fetch2 = SecondaryAnswered st2 \<longrightarrow>
          checkFrontierOrFailover primary secondary race fetch2 =
            Some (Inr (if st2 < 300 \<or> st2 = 404 then secondary else primary)))
       \<and> (\<forall>e. fetch2 = SecondaryFailed e \<longrightarrow>
          checkFrontierOrFailover primary secondary race fetch2 = Some (Inl e))
       \<and> (fetch2 = SecondaryPending \<longrightarrow>
          checkFrontierOrFailover primary secondary race fetch2 = None))"
  by (cases race; cases fetch2) (auto simp: checkFrontierOrFailover_def statusFine_def)

theorem checkFrontierOrFailover_selection_witness:
  "checkFrontierOrFailover ''https://primary'' ''https://secondary'' (AnsweredInTime 404) SecondaryPending
     = Some (Inr ''https://primary'')
   \<and> checkFrontierOrFailover ''https://primary'' ''https://secondary'' TimedOut (SecondaryAnswered 200)
     = Some (Inr ''https://secondary'')
   \<and> checkFrontierOrFailover ''https://primary'' ''https://secondary'' (AnsweredInTime 503) (SecondaryAnswered 500)
     = Some (Inr ''https://primary'')"
  using checkFrontierOrFailover_selection
      [of "AnsweredInTime 404" "''https://primary''" "''https://secondary''" SecondaryPending]
    checkFrontierOrFailover_selection
      [of TimedOut "''https://primary''" "''https://secondary''" "SecondaryAnswered 200"]
    checkFrontierOrFailover_selection
      [of "AnsweredInTime 503" "''https://primary''" "''https://secondary''" "SecondaryAnswered 500"]
  by simp


section \<open>The subscription caches\<close>

lemmas subscribe_defs =
  subscribeToAccount_def subscribeToAccountEffects_def subscribeToOpenOrders_def
  subscribeToOrderbook_def subscribeToAccountTransactions_def
  subscribeToAccountUncached_def subscribeToAccountEffectsUncached_def
  subscribeToOpenOrdersUncached_def subscribeToOrderbookUncached_def
  subscribeToAccountTransactionsUncached_def
  cachify_def getRandomURL_def getFetchQueue_def newObservable_def Let_def

lemma functionOf_cacheOf: "functionOf c2 = functionOf c1 \<Longrightarrow> cacheOf c2 = cacheOf c1"
  by (cases c1; cases c2) simp_all

lemma perform_hit:
  "map_of (cacheOf c w) (keyOf c) = Some h \<Longrightarrow> perform newAsset c w = (Inr h, w)"
  by (cases c) (simp_all add: subscribeToAccount_def subscribeToAccountEffects_def
      subscribeToOpenOrders_def subscribeToOrderbook_def subscribeToAccountTransactions_def
      cachify_def)

lemma perform_stored:
  "perform newAsset c w = (Inr h, w') \<Longrightarrow> map_of (cacheOf c w') (keyOf c) = Some h"
  by (cases c)
     (auto simp: subscribe_defs update_conv' split: option.splits sum.splits prod.splits if_splits)


text \<open>What \<open>cachify\<close> does, whatever it wraps.\<close>

lemma cachify_miss:
  "map_of (rd w) (mk args) = None \<Longrightarrow>
   cachify rd wr sub mk args w =
     (case sub args w of
        (Inl e, w') \<Rightarrow> (Inl e, w')
      | (Inr observable, w') \<Rightarrow>
          (Inr observable, wr (AList.update (mk args) observable (rd w')) w'))"
  by (simp add: cachify_def Let_def)

lemma cachify_keeps_own:
  assumes sub: "map_of (rd (snd (sub args w))) k = Some h"
      and rw: "\<And>c v. rd (wr c v) = c"
      and look: "map_of (rd w) k = Some h"
  shows "map_of (rd (snd (cachify rd wr sub mk args w))) k = Some h"
proof (cases "map_of (rd w) (mk args)")
  case (Some cached)
  then show ?thesis using look by (simp add: cachify_def Let_def)
next
  case None
  with look have "k \<noteq> mk args" by auto
  have "cachify rd wr sub mk args w =
     (case sub args w of
        (Inl e, w') \<Rightarrow> (Inl e, w')
      | (Inr observable, w') \<Rightarrow>
          (Inr observable, wr (AList.update (mk args) observable (rd w')) w'))"
    using None by (rule cachify_miss [of rd w mk args wr sub])
  with sub \<open>k \<noteq> mk args\<close> show ?thesis
    by (auto simp: rw update_conv' split: prod.splits sum.splits)
qed

lemma cachify_keeps_other:
  assumes sub: "map_of (X (snd (sub args w))) k = Some h"
      and rw: "\<And>c v. X (wr c v) = X v"
      and look: "map_of (X w) k = Some h"
  shows "map_of (X (snd (cachify rd wr sub mk args w))) k = Some h"
  using sub look
  by (auto simp: cachify_def Let_def rw split: option.splits prod.splits sum.splits)

lemma cachify_grows:
  assumes sub: "length (observables w) \<le> length (observables (snd (sub args w)))"
      and rw: "\<And>c v. observables (wr c v) = observables v"
  shows "length (observables w) \<le> length (observables (snd (cachify rd wr sub mk args w)))"
  using sub
  by (auto simp: cachify_def Let_def rw split: option.splits prod.splits sum.splits)

lemma cachify_fresh:
  assumes miss: "map_of (rd w) (mk args) = None"
      and run: "cachify rd wr sub mk args w = (Inr h, w')"
      and sub: "\<And>v. sub args w = (Inr h, v) \<Longrightarrow>
                  length (observables w) \<le> h \<and> h < length (observables v)"
      and rw: "\<And>c v. observables (wr c v) = observables v"
  shows "length (observables w) \<le> h \<and> h < length (observables w')"
proof -
  have "cachify rd wr sub mk args w =
     (case sub args w of
        (Inl e, w') \<Rightarrow> (Inl e, w')
      | (Inr observable, w') \<Rightarrow>
          (Inr observable, wr (AList.update (mk args) observable (rd w')) w'))"
    using miss by (rule cachify_miss [of rd w mk args wr sub])
  with run sub show ?thesis
    by (auto simp: rw split: prod.splits sum.splits)
qed

lemma cachify_fails:
  "cachify rd wr sub mk args w = (Inl e, w') \<Longrightarrow> sub args w = (Inl e, w')"
  by (auto simp: cachify_def Let_def split: option.splits prod.splits sum.splits)

text \<open>The wrapped functions: which caches they touch, and the observable they make.\<close>

lemmas primitive_defs = getRandomURL_def getFetchQueue_def newObservable_def Let_def

lemma effectsUncached_caches:
  "cacheOf c (snd (subscribeToAccountEffectsUncached args w)) = cacheOf c w"
  by (cases c)
     (simp_all add: subscribeToAccountEffectsUncached_def primitive_defs
        split: prod.splits option.splits)

lemma accountUncached_caches:
  "cacheOf c (snd (subscribeToAccountUncached args w)) = cacheOf c w"
  by (cases c)
     (simp_all add: subscribeToAccountUncached_def primitive_defs split: prod.splits)

lemma ordersUncached_caches:
  "cacheOf c (snd (subscribeToOpenOrdersUncached args w)) = cacheOf c w"
  by (cases c)
     (simp_all add: subscribeToOpenOrdersUncached_def primitive_defs split: prod.splits)

lemma orderbookUncached_caches:
  "cacheOf c (snd (subscribeToOrderbookUncached newAsset args w)) = cacheOf c w"
  by (cases c)
     (simp_all add: subscribeToOrderbookUncached_def primitive_defs
        split: prod.splits option.splits sum.splits)

lemma effectsUncached_fresh:
  "subscribeToAccountEffectsUncached args w = (Inr h, v) \<Longrightarrow>
   length (observables w) \<le> h \<and> h < length (observables v)"
  by (auto simp: subscribeToAccountEffectsUncached_def primitive_defs
        split: prod.splits option.splits)

lemma accountUncached_fresh:
  "subscribeToAccountUncached args w = (Inr h, v) \<Longrightarrow>
   length (observables w) \<le> h \<and> h < length (observables v)"
  by (auto simp: subscribeToAccountUncached_def primitive_defs split: prod.splits)

lemma ordersUncached_fresh:
  "subscribeToOpenOrdersUncached args w = (Inr h, v) \<Longrightarrow>
   length (observables w) \<le> h \<and> h < length (observables v)"
  by (auto simp: subscribeToOpenOrdersUncached_def primitive_defs split: prod.splits)

lemma orderbookUncached_fresh:
  "subscribeToOrderbookUncached newAsset args w = (Inr h, v) \<Longrightarrow>
   length (observables w) \<le> h \<and> h < length (observables v)"
  by (auto simp: subscribeToOrderbookUncached_def primitive_defs
        split: prod.splits option.splits sum.splits if_splits)

lemma effectsUncached_grows:
  "length (observables w) \<le> length (observables (snd (subscribeToAccountEffectsUncached args w)))"
  by (simp add: subscribeToAccountEffectsUncached_def primitive_defs
        split: prod.splits option.splits)

lemma accountUncached_grows:
  "length (observables w) \<le> length (observables (snd (subscribeToAccountUncached args w)))"
  by (simp add: subscribeToAccountUncached_def primitive_defs split: prod.splits)

lemma ordersUncached_grows:
  "length (observables w) \<le> length (observables (snd (subscribeToOpenOrdersUncached args w)))"
  by (simp add: subscribeToOpenOrdersUncached_def primitive_defs split: prod.splits)

lemma orderbookUncached_grows:
  "length (observables w) \<le> length (observables (snd (subscribeToOrderbookUncached newAsset args w)))"
  by (simp add: subscribeToOrderbookUncached_def primitive_defs
        split: prod.splits option.splits sum.splits)



lemma fetchStart_caches:
  "cacheOf c (fetchAccountTransactionsStart urls accountID pagination w) = cacheOf c w"
  by (cases c)
     (simp_all add: fetchAccountTransactionsStart_def primitive_defs
        split: prod.splits option.splits)

lemma fetchStart_observables:
  "observables (fetchAccountTransactionsStart urls accountID pagination w) = observables w"
  by (simp add: fetchAccountTransactionsStart_def primitive_defs
        split: prod.splits option.splits)

text \<open>Entries of any cache survive a memoized call.\<close>

lemma own_cache:
  "functionOf c = AccountFn \<Longrightarrow> cacheOf c = accountSubscriptionCache"
  "functionOf c = AccountEffectsFn \<Longrightarrow> cacheOf c = effectsSubscriptionCache"
  "functionOf c = OpenOrdersFn \<Longrightarrow> cacheOf c = ordersSubscriptionCache"
  "functionOf c = OrderbookFn \<Longrightarrow> cacheOf c = orderbookSubscriptionCache"
  "functionOf c = AccountTransactionsFn \<Longrightarrow> cacheOf c = transactionsSubscriptionCache"
  by (cases c; simp)+

lemma other_cache:
  "functionOf c \<noteq> AccountFn \<Longrightarrow> cacheOf c (v\<lparr>accountSubscriptionCache := m\<rparr>) = cacheOf c v"
  "functionOf c \<noteq> AccountEffectsFn \<Longrightarrow> cacheOf c (v\<lparr>effectsSubscriptionCache := m\<rparr>) = cacheOf c v"
  "functionOf c \<noteq> OpenOrdersFn \<Longrightarrow> cacheOf c (v\<lparr>ordersSubscriptionCache := m\<rparr>) = cacheOf c v"
  "functionOf c \<noteq> OrderbookFn \<Longrightarrow> cacheOf c (v\<lparr>orderbookSubscriptionCache := m\<rparr>) = cacheOf c v"
  "functionOf c \<noteq> AccountTransactionsFn \<Longrightarrow>
     cacheOf c (v\<lparr>transactionsSubscriptionCache := m\<rparr>) = cacheOf c v"
  by (cases c; simp)+

lemma memoized_keeps:
  assumes sub: "map_of (cacheOf c (snd (sub args w))) k = Some h"
      and own: "functionOf c = F \<Longrightarrow> cacheOf c = rd"
      and rw_own: "\<And>m v. rd (wr m v) = m"
      and rw_other: "\<And>m v. functionOf c \<noteq> F \<Longrightarrow> cacheOf c (wr m v) = cacheOf c v"
      and look: "map_of (cacheOf c w) k = Some h"
  shows "map_of (cacheOf c (snd (cachify rd wr sub mk args w))) k = Some h"
proof (cases "functionOf c = F")
  case True
  then have c: "cacheOf c = rd" by (rule own)
  show ?thesis
    unfolding c
    by (rule cachify_keeps_own [where rd = rd]) (use sub look rw_own in \<open>simp_all add: c\<close>)
next
  case False
  show ?thesis
    by (rule cachify_keeps_other [where X = "cacheOf c"])
       (use sub look rw_other [OF False] in simp_all)
qed

lemma effects_keeps:
  "map_of (cacheOf c w) k = Some h \<Longrightarrow>
   map_of (cacheOf c (snd (subscribeToAccountEffects args w))) k = Some h"
  unfolding subscribeToAccountEffects_def
  by (rule memoized_keeps [where F = AccountEffectsFn])
     (simp_all add: effectsUncached_caches own_cache other_cache)

lemma account_keeps:
  "map_of (cacheOf c w) k = Some h \<Longrightarrow>
   map_of (cacheOf c (snd (subscribeToAccount args w))) k = Some h"
  unfolding subscribeToAccount_def
  by (rule memoized_keeps [where F = AccountFn])
     (simp_all add: accountUncached_caches own_cache other_cache)

lemma orders_keeps:
  "map_of (cacheOf c w) k = Some h \<Longrightarrow>
   map_of (cacheOf c (snd (subscribeToOpenOrders args w))) k = Some h"
  unfolding subscribeToOpenOrders_def
  by (rule memoized_keeps [where F = OpenOrdersFn])
     (simp_all add: ordersUncached_caches own_cache other_cache)

lemma orderbook_keeps:
  "map_of (cacheOf c w) k = Some h \<Longrightarrow>
   map_of (cacheOf c (snd (subscribeToOrderbook newAsset args w))) k = Some h"
  unfolding subscribeToOrderbook_def
  by (rule memoized_keeps [where F = OrderbookFn])
     (simp_all add: orderbookUncached_caches own_cache other_cache)

lemma transactionsUncached_keeps:
  assumes look: "map_of (cacheOf c w) k = Some h"
  shows "map_of (cacheOf c (snd (subscribeToAccountTransactionsUncached args w))) k = Some h"
proof -
  obtain urls accountID where args: "args = (urls, accountID)" by (cases args)
  define w1 where
    "w1 = fetchAccountTransactionsStart urls accountID [(''limit'', ''1''), (''order'', ''desc'')] w"
  have "map_of (cacheOf c w1) k = Some h" using look by (simp add: w1_def fetchStart_caches)
  then have kept: "map_of (cacheOf c (snd (subscribeToAccountEffects (urls, accountID) w1))) k = Some h"
    by (rule effects_keeps)
  have made: "cacheOf c (v\<lparr>observables := os\<rparr>) = cacheOf c v" for v os
    by (cases c) simp_all
  show ?thesis
    using kept
    by (auto simp: subscribeToAccountTransactionsUncached_def args w1_def [symmetric]
          newObservable_def Let_def made split: prod.splits sum.splits)
qed

lemma transactions_keeps:
  "map_of (cacheOf c w) k = Some h \<Longrightarrow>
   map_of (cacheOf c (snd (subscribeToAccountTransactions args w))) k = Some h"
  unfolding subscribeToAccountTransactions_def
  by (rule memoized_keeps [where F = AccountTransactionsFn])
     (simp_all add: transactionsUncached_keeps own_cache other_cache)

lemma perform_keeps_entries:
  "map_of (cacheOf c w) k = Some h \<Longrightarrow>
   map_of (cacheOf c (snd (perform newAsset c' w))) k = Some h"
  by (cases c')
     (simp_all add: account_keeps effects_keeps orders_keeps orderbook_keeps transactions_keeps)

text \<open>Observables are only ever added.\<close>

lemma effects_grows:
  "length (observables w) \<le> length (observables (snd (subscribeToAccountEffects args w)))"
  unfolding subscribeToAccountEffects_def
  by (rule cachify_grows) (simp_all add: effectsUncached_grows)

lemma transactionsUncached_grows:
  "length (observables w)
     \<le> length (observables (snd (subscribeToAccountTransactionsUncached args w)))"
proof -
  obtain urls accountID where args: "args = (urls, accountID)" by (cases args)
  define w1 where
    "w1 = fetchAccountTransactionsStart urls accountID [(''limit'', ''1''), (''order'', ''desc'')] w"
  have "length (observables w) = length (observables w1)"
    by (simp add: w1_def fetchStart_observables)
  also have "\<dots> \<le> length (observables (snd (subscribeToAccountEffects (urls, accountID) w1)))"
    by (rule effects_grows)
  finally show ?thesis
    by (auto simp: subscribeToAccountTransactionsUncached_def args w1_def [symmetric]
          newObservable_def Let_def split: prod.splits sum.splits)
qed

lemma account_grows:
  "length (observables w) \<le> length (observables (snd (subscribeToAccount args w)))"
  unfolding subscribeToAccount_def
  by (rule cachify_grows) (simp_all add: accountUncached_grows)

lemma orders_grows:
  "length (observables w) \<le> length (observables (snd (subscribeToOpenOrders args w)))"
  unfolding subscribeToOpenOrders_def
  by (rule cachify_grows) (simp_all add: ordersUncached_grows)

lemma orderbook_grows:
  "length (observables w) \<le> length (observables (snd (subscribeToOrderbook newAsset args w)))"
  unfolding subscribeToOrderbook_def
  by (rule cachify_grows) (simp_all add: orderbookUncached_grows)

lemma transactions_grows:
  "length (observables w) \<le> length (observables (snd (subscribeToAccountTransactions args w)))"
  unfolding subscribeToAccountTransactions_def
  by (rule cachify_grows) (simp_all add: transactionsUncached_grows)

lemma perform_observables_grow:
  "length (observables w) \<le> length (observables (snd (perform newAsset c w)))"
  by (cases c)
     (simp_all add: account_grows effects_grows orders_grows orderbook_grows transactions_grows)





text \<open>On a miss the observable returned is a new one.\<close>

lemma transactionsUncached_fresh:
  assumes run: "subscribeToAccountTransactionsUncached args w = (Inr h, v)"
  shows "length (observables w) \<le> h \<and> h < length (observables v)"
proof -
  obtain urls accountID where args: "args = (urls, accountID)" by (cases args)
  define w1 where
    "w1 = fetchAccountTransactionsStart urls accountID [(''limit'', ''1''), (''order'', ''desc'')] w"
  have "length (observables w) = length (observables w1)"
    by (simp add: w1_def fetchStart_observables)
  also have "\<dots> \<le> length (observables (snd (subscribeToAccountEffects (urls, accountID) w1)))"
    by (rule effects_grows)
  finally show ?thesis
    using run
    by (auto simp: subscribeToAccountTransactionsUncached_def args w1_def [symmetric]
          newObservable_def Let_def split: prod.splits sum.splits)
qed





lemma perform_fresh:
  assumes miss: "map_of (cacheOf c w) (keyOf c) = None"
      and run: "perform newAsset c w = (Inr h, w')"
  shows "length (observables w) \<le> h \<and> h < length (observables w')"
proof (cases c)
  case (SubscribeToAccount urls accountID)
  show ?thesis
    by (rule cachify_fresh
          [where rd = accountSubscriptionCache and sub = subscribeToAccountUncached
             and args = "(urls, accountID)"
             and mk = "\<lambda>(frontierURLs, accountID). createAccountCacheKey' frontierURLs accountID"
             and wr = "\<lambda>c w. w\<lparr>accountSubscriptionCache := c\<rparr>"])
       (use miss run SubscribeToAccount in
          \<open>simp_all add: subscribeToAccount_def accountUncached_fresh\<close>)
next
  case (SubscribeToAccountEffects urls accountID)
  show ?thesis
    by (rule cachify_fresh
          [where rd = effectsSubscriptionCache and sub = subscribeToAccountEffectsUncached
             and args = "(urls, accountID)"
             and mk = "\<lambda>(frontierURLs, accountID). createAccountCacheKey' frontierURLs accountID"
             and wr = "\<lambda>c w. w\<lparr>effectsSubscriptionCache := c\<rparr>"])
       (use miss run SubscribeToAccountEffects in
          \<open>simp_all add: subscribeToAccountEffects_def effectsUncached_fresh\<close>)
next
  case (SubscribeToOpenOrders urls accountID)
  show ?thesis
    by (rule cachify_fresh
          [where rd = ordersSubscriptionCache and sub = subscribeToOpenOrdersUncached
             and args = "(urls, accountID)"
             and mk = "\<lambda>(frontierURLs, accountID). createAccountCacheKey' frontierURLs accountID"
             and wr = "\<lambda>c w. w\<lparr>ordersSubscriptionCache := c\<rparr>"])
       (use miss run SubscribeToOpenOrders in
          \<open>simp_all add: subscribeToOpenOrders_def ordersUncached_fresh\<close>)
next
  case (SubscribeToOrderbook urls sellingAsset buyingAsset)
  show ?thesis
    by (rule cachify_fresh
          [where rd = orderbookSubscriptionCache and sub = "subscribeToOrderbookUncached newAsset"
             and args = "(urls, sellingAsset, buyingAsset)"
             and mk = "\<lambda>(frontierURLs, sellingAsset, buyingAsset).
                         createOrderbookCacheKey frontierURLs sellingAsset buyingAsset"
             and wr = "\<lambda>c w. w\<lparr>orderbookSubscriptionCache := c\<rparr>"])
       (use miss run SubscribeToOrderbook in
          \<open>simp_all add: subscribeToOrderbook_def orderbookUncached_fresh\<close>)
next
  case (SubscribeToAccountTransactions urls accountID)
  show ?thesis
    by (rule cachify_fresh
          [where rd = transactionsSubscriptionCache and sub = subscribeToAccountTransactionsUncached
             and args = "(urls, accountID)"
             and mk = "\<lambda>(frontierURLs, accountID). createAccountCacheKey' frontierURLs accountID"
             and wr = "\<lambda>c w. w\<lparr>transactionsSubscriptionCache := c\<rparr>"])
       (use miss run SubscribeToAccountTransactions in
          \<open>simp_all add: subscribeToAccountTransactions_def transactionsUncached_fresh\<close>)
qed





text \<open>Only the order book subscription can throw.\<close>

lemma effects_never_fails: "subscribeToAccountEffects args w \<noteq> (Inl e, w')"
proof
  assume "subscribeToAccountEffects args w = (Inl e, w')"
  then have "subscribeToAccountEffectsUncached args w = (Inl e, w')"
    unfolding subscribeToAccountEffects_def by (rule cachify_fails)
  then show False
    by (auto simp: subscribeToAccountEffectsUncached_def primitive_defs
          split: prod.splits option.splits)
qed



lemma account_never_fails: "subscribeToAccount args w \<noteq> (Inl e, w')"
proof
  assume "subscribeToAccount args w = (Inl e, w')"
  then have "subscribeToAccountUncached args w = (Inl e, w')"
    unfolding subscribeToAccount_def by (rule cachify_fails)
  then show False
    by (auto simp: subscribeToAccountUncached_def primitive_defs split: prod.splits)
qed

lemma orders_never_fails: "subscribeToOpenOrders args w \<noteq> (Inl e, w')"
proof
  assume "subscribeToOpenOrders args w = (Inl e, w')"
  then have "subscribeToOpenOrdersUncached args w = (Inl e, w')"
    unfolding subscribeToOpenOrders_def by (rule cachify_fails)
  then show False
    by (auto simp: subscribeToOpenOrdersUncached_def primitive_defs split: prod.splits)
qed

lemma transactions_never_fails: "subscribeToAccountTransactions args w \<noteq> (Inl e, w')"
proof
  assume "subscribeToAccountTransactions args w = (Inl e, w')"
  then have "subscribeToAccountTransactionsUncached args w = (Inl e, w')"
    unfolding subscribeToAccountTransactions_def by (rule cachify_fails)
  then show False
    by (auto simp: subscribeToAccountTransactionsUncached_def newObservable_def Let_def
          effects_never_fails split: prod.splits sum.splits)
qed

lemma orderbook_fails:
  assumes "subscribeToOrderbook newAsset (urls, sellingAsset, buyingAsset) w = (Inl e, w')"
  shows "w' = w \<and> (parseAssetID newAsset buyingAsset = Inl e
                    \<or> parseAssetID newAsset sellingAsset = Inl e)"
proof -
  from assms
  have "subscribeToOrderbookUncached newAsset (urls, sellingAsset, buyingAsset) w = (Inl e, w')"
    unfolding subscribeToOrderbook_def by (rule cachify_fails)
  then show ?thesis
    by (auto simp: subscribeToOrderbookUncached_def primitive_defs
          split: sum.splits if_splits prod.splits option.splits)
qed

lemma perform_fails:
  assumes "perform newAsset c w = (Inl e, w')"
  shows "w' = w \<and> (\<exists>urls sellingAsset buyingAsset.
            c = SubscribeToOrderbook urls sellingAsset buyingAsset
            \<and> (parseAssetID newAsset buyingAsset = Inl e
                 \<or> parseAssetID newAsset sellingAsset = Inl e))"
proof (cases c)
  case (SubscribeToOrderbook urls sellingAsset buyingAsset)
  with assms show ?thesis using orderbook_fails by simp
qed (use assms in \<open>simp_all add: account_never_fails effects_never_fails orders_never_fails
        transactions_never_fails\<close>)




lemma performAll_keeps_entries:
  "map_of (cacheOf c w) k = Some h \<Longrightarrow> map_of (cacheOf c (performAll newAsset cs w)) k = Some h"
  by (induction cs arbitrary: w) (simp_all add: perform_keeps_entries)

lemma performAll_observables_grow:
  "length (observables w) \<le> length (observables (performAll newAsset cs w))"
proof (induction cs arbitrary: w)
  case Nil
  show ?case by simp
next
  case (Cons c cs)
  have "length (observables w) \<le> length (observables (snd (perform newAsset c w)))"
    by (rule perform_observables_grow)
  also have "\<dots> \<le> length (observables (performAll newAsset cs (snd (perform newAsset c w))))"
    by (rule Cons.IH)
  finally show ?case by simp
qed

lemma cachesSound_lookup:
  assumes sound: "cachesSound w" and look: "map_of (cacheOf c w) k = Some h"
  shows "h < length (observables w)"
proof -
  from look have "(k, h) \<in> set (cacheOf c w)" by (rule map_of_SomeD)
  moreover from sound have "\<forall>entry\<in>set (cacheOf c w). snd entry < length (observables w)"
    by (cases c) (simp_all add: cachesSound_def list_all_iff)
  ultimately show ?thesis by auto
qed

lemma perform_handle_exists:
  assumes "cachesSound w" and "perform newAsset c w = (Inr h, w')"
  shows "h < length (observables w')"
proof (cases "map_of (cacheOf c w) (keyOf c)")
  case None
  with assms(2) show ?thesis using perform_fresh by blast
next
  case (Some h0)
  then have "perform newAsset c w = (Inr h0, w)" by (rule perform_hit)
  with assms(2) have "h0 = h" "w' = w" by simp_all
  with Some assms(1) show ?thesis using cachesSound_lookup by blast
qed

lemma reset_clears: "map_of (cacheOf c (resetAllSubscriptions w)) k = None"
  by (cases c) (simp_all add: resetAllSubscriptions_def)

lemma reset_observables: "observables (resetAllSubscriptions w) = observables w"
  by (simp add: resetAllSubscriptions_def)

text \<open>The caches stay sound: soundness holds at the start and after every call and reset.\<close>

lemma cachesSound_iff:
  "cachesSound w \<longleftrightarrow> (\<forall>c. \<forall>entry\<in>set (cacheOf c w). snd entry < length (observables w))"
proof
  assume sound: "cachesSound w"
  show "\<forall>c. \<forall>entry\<in>set (cacheOf c w). snd entry < length (observables w)"
  proof
    fix c
    from sound show "\<forall>entry\<in>set (cacheOf c w). snd entry < length (observables w)"
      by (cases c) (simp_all add: cachesSound_def list_all_iff)
  qed
next
  assume all: "\<forall>c. \<forall>entry\<in>set (cacheOf c w). snd entry < length (observables w)"
  from all [rule_format, of _ "SubscribeToAccount [] []"]
       all [rule_format, of _ "SubscribeToAccountEffects [] []"]
       all [rule_format, of _ "SubscribeToOpenOrders [] []"]
       all [rule_format, of _ "SubscribeToOrderbook [] [] []"]
       all [rule_format, of _ "SubscribeToAccountTransactions [] []"]
  show "cachesSound w"
    by (simp add: cachesSound_def list_all_iff)
qed

lemma cachesSound_initial: "cachesSound initialNetWorker"
  by (simp add: cachesSound_def initialNetWorker_def)

lemma cachesSound_reset: "cachesSound (resetAllSubscriptions w)"
  by (simp add: cachesSound_def resetAllSubscriptions_def)

lemma update_entries: "set (AList.update k v al) \<subseteq> insert (k, v) (set al)"
  by (induction al) auto

lemma cachify_sound:
  assumes own: "\<And>c. functionOf c = F \<Longrightarrow> cacheOf c = rd"
      and rw_own: "\<And>m v. rd (wr m v) = m"
      and rw_other: "\<And>c m v. functionOf c \<noteq> F \<Longrightarrow> cacheOf c (wr m v) = cacheOf c v"
      and rw_obs: "\<And>m v. observables (wr m v) = observables v"
      and sub_sound: "cachesSound (snd (sub args w))"
      and sub_fresh: "\<And>h v. sub args w = (Inr h, v) \<Longrightarrow> h < length (observables v)"
      and sound: "cachesSound w"
  shows "cachesSound (snd (cachify rd wr sub mk args w))"
proof (cases "map_of (rd w) (mk args)")
  case (Some cached)
  with sound show ?thesis by (simp add: cachify_def Let_def)
next
  case None
  obtain r v where sub: "sub args w = (r, v)" by (cases "sub args w")
  from sub_sound sub have v_sound: "cachesSound v" by simp
  show ?thesis
  proof (cases r)
    case (Inl e)
    with None sub v_sound show ?thesis by (simp add: cachify_def Let_def)
  next
    case (Inr h)
    let ?w' = "wr (AList.update (mk args) h (rd v)) v"
    from None sub Inr have res: "snd (cachify rd wr sub mk args w) = ?w'"
      by (simp add: cachify_def Let_def)
    have h: "h < length (observables v)" using sub Inr by (intro sub_fresh) simp
    have "\<forall>entry\<in>set (cacheOf c ?w'). snd entry < length (observables ?w')" for c
    proof (cases "functionOf c = F")
      case True
      then have c: "cacheOf c = rd" by (rule own)
      have "set (rd ?w') \<subseteq> insert (mk args, h) (set (rd v))"
        by (simp add: rw_own update_entries)
      moreover have "\<forall>entry\<in>set (rd v). snd entry < length (observables v)"
        using v_sound c by (metis cachesSound_iff)
      ultimately show ?thesis using h by (auto simp: c rw_obs)
    next
      case False
      have "\<forall>entry\<in>set (cacheOf c v). snd entry < length (observables v)"
        using v_sound by (simp add: cachesSound_iff)
      then show ?thesis by (simp add: rw_other [OF False] rw_obs)
    qed
    then show ?thesis unfolding res by (simp add: cachesSound_iff)
  qed
qed

lemma sound_carried:
  assumes "cachesSound w"
      and "\<And>c. cacheOf c w' = cacheOf c w"
      and "length (observables w) \<le> length (observables w')"
  shows "cachesSound w'"
  using assms by (fastforce simp: cachesSound_iff)

lemma effects_sound:
  "cachesSound w \<Longrightarrow> cachesSound (snd (subscribeToAccountEffects args w))"
  unfolding subscribeToAccountEffects_def
  by (rule cachify_sound [where F = AccountEffectsFn])
     (simp_all add: own_cache other_cache effectsUncached_fresh
        sound_carried [OF _ effectsUncached_caches effectsUncached_grows])

lemma account_sound:
  "cachesSound w \<Longrightarrow> cachesSound (snd (subscribeToAccount args w))"
  unfolding subscribeToAccount_def
  by (rule cachify_sound [where F = AccountFn])
     (simp_all add: own_cache other_cache accountUncached_fresh
        sound_carried [OF _ accountUncached_caches accountUncached_grows])

lemma orders_sound:
  "cachesSound w \<Longrightarrow> cachesSound (snd (subscribeToOpenOrders args w))"
  unfolding subscribeToOpenOrders_def
  by (rule cachify_sound [where F = OpenOrdersFn])
     (simp_all add: own_cache other_cache ordersUncached_fresh
        sound_carried [OF _ ordersUncached_caches ordersUncached_grows])

lemma orderbook_sound:
  "cachesSound w \<Longrightarrow> cachesSound (snd (subscribeToOrderbook newAsset args w))"
  unfolding subscribeToOrderbook_def
  by (rule cachify_sound [where F = OrderbookFn])
     (simp_all add: own_cache other_cache orderbookUncached_fresh
        sound_carried [OF _ orderbookUncached_caches orderbookUncached_grows])

lemma transactionsUncached_sound:
  assumes sound: "cachesSound w"
  shows "cachesSound (snd (subscribeToAccountTransactionsUncached args w))"
proof -
  obtain urls accountID where args: "args = (urls, accountID)" by (cases args)
  define w1 where
    "w1 = fetchAccountTransactionsStart urls accountID [(''limit'', ''1''), (''order'', ''desc'')] w"
  have "cachesSound w1"
    using sound by (rule sound_carried) (simp_all add: w1_def fetchStart_caches fetchStart_observables)
  then have after: "cachesSound (snd (subscribeToAccountEffects (urls, accountID) w1))"
    by (rule effects_sound)
  have made: "cachesSound (v\<lparr>observables := observables v @ [x]\<rparr>)" if "cachesSound v" for v x
    using that by (rule sound_carried) (simp_all add: cachesSound_def, case_tac c, simp_all)
  show ?thesis
    using after made
    by (auto simp: subscribeToAccountTransactionsUncached_def args w1_def [symmetric]
          newObservable_def Let_def split: prod.splits sum.splits)
qed

lemma transactions_sound:
  "cachesSound w \<Longrightarrow> cachesSound (snd (subscribeToAccountTransactions args w))"
  unfolding subscribeToAccountTransactions_def
  by (rule cachify_sound [where F = AccountTransactionsFn])
     (simp_all add: own_cache other_cache transactionsUncached_fresh transactionsUncached_sound)

lemma cachesSound_perform:
  "cachesSound w \<Longrightarrow> cachesSound (snd (perform newAsset c w))"
  by (cases c)
     (simp_all add: account_sound effects_sound orders_sound orderbook_sound transactions_sound)

lemma cachesSound_performAll:
  "cachesSound w \<Longrightarrow> cachesSound (performAll newAsset cs w)"
  by (induction cs arbitrary: w) (simp_all add: cachesSound_perform)

text \<open>
  C6. Let the caches hold only observables that exist (as they do at the start and after
  every call and reset, by the lemmas above), and let a call \<open>c1\<close> of one of the
  five memoized functions return the observable \<open>h\<close>. After any further calls of the
  memoized functions, a call \<open>c2\<close> of the same function whose key equals that of \<open>c1\<close>
  returns \<open>h\<close> again and changes nothing: no second stream is made for the key. After
  \<open>resetAllSubscriptions\<close>, the call \<open>c2\<close> returns an observable that did not exist
  before the reset, hence not \<open>h\<close>, and that one is then shared in turn. The call
  throws instead only if it is an order book subscription and the SDK refuses its buying
  or its selling identifier with that very error, and then it changes nothing; so when
  both identifiers are accepted, and for the other four functions always, a new
  observable is returned.
\<close>

theorem memoized_subscription_shared_until_reset:
  assumes sound: "cachesSound w"
      and first: "perform newAsset c1 w = (Inr h, w1)"
      and sameFunction: "functionOf c2 = functionOf c1"
      and sameKey: "keyOf c2 = keyOf c1"
  shows "perform newAsset c2 (performAll newAsset cs w1) = (Inr h, performAll newAsset cs w1)
       \<and> (case perform newAsset c2 (resetAllSubscriptions (performAll newAsset cs w1)) of
            (Inr h', w3) \<Rightarrow>
              h' \<noteq> h
              \<and> length (observables (performAll newAsset cs w1)) \<le> h'
              \<and> h' < length (observables w3)
              \<and> perform newAsset c2 w3 = (Inr h', w3)
          | (Inl e, w3) \<Rightarrow>
              w3 = resetAllSubscriptions (performAll newAsset cs w1)
              \<and> (\<exists>urls sellingAsset buyingAsset.
                    c2 = SubscribeToOrderbook urls sellingAsset buyingAsset
                    \<and> (parseAssetID newAsset buyingAsset = Inl e
                         \<or> parseAssetID newAsset sellingAsset = Inl e)))"
proof -
  let ?w2 = "performAll newAsset cs w1"
  have cache: "cacheOf c2 = cacheOf c1" using sameFunction by (rule functionOf_cacheOf)
  have "map_of (cacheOf c1 w1) (keyOf c1) = Some h" using first by (rule perform_stored)
  then have "map_of (cacheOf c1 ?w2) (keyOf c1) = Some h" by (rule performAll_keeps_entries)
  then have "map_of (cacheOf c2 ?w2) (keyOf c2) = Some h" by (simp add: cache sameKey)
  then have shared: "perform newAsset c2 ?w2 = (Inr h, ?w2)" by (rule perform_hit)
  have "h < length (observables w1)" using sound first by (rule perform_handle_exists)
  also have "\<dots> \<le> length (observables ?w2)" by (rule performAll_observables_grow)
  finally have old: "h < length (observables ?w2)" .
  have after: "(case perform newAsset c2 (resetAllSubscriptions ?w2) of
            (Inr h', w3) \<Rightarrow>
              h' \<noteq> h \<and> length (observables ?w2) \<le> h' \<and> h' < length (observables w3)
              \<and> perform newAsset c2 w3 = (Inr h', w3)
          | (Inl e, w3) \<Rightarrow>
              w3 = resetAllSubscriptions ?w2
              \<and> (\<exists>urls sellingAsset buyingAsset.
                    c2 = SubscribeToOrderbook urls sellingAsset buyingAsset
                    \<and> (parseAssetID newAsset buyingAsset = Inl e
                         \<or> parseAssetID newAsset sellingAsset = Inl e)))"
  proof (cases "perform newAsset c2 (resetAllSubscriptions ?w2)")
    case (Pair res w3)
    show ?thesis
    proof (cases res)
      case (Inl e)
      with Pair have "perform newAsset c2 (resetAllSubscriptions ?w2) = (Inl e, w3)" by simp
      then have "w3 = resetAllSubscriptions ?w2
              \<and> (\<exists>urls sellingAsset buyingAsset.
                    c2 = SubscribeToOrderbook urls sellingAsset buyingAsset
                    \<and> (parseAssetID newAsset buyingAsset = Inl e
                         \<or> parseAssetID newAsset sellingAsset = Inl e))"
        by (rule perform_fails)
      with Pair Inl show ?thesis by simp
    next
      case (Inr h')
      with Pair have run: "perform newAsset c2 (resetAllSubscriptions ?w2) = (Inr h', w3)" by simp
      have miss: "map_of (cacheOf c2 (resetAllSubscriptions ?w2)) (keyOf c2) = None"
        by (rule reset_clears)
      from perform_fresh [OF miss run]
      have fresh: "length (observables ?w2) \<le> h'" "h' < length (observables w3)"
        by (simp_all add: reset_observables)
      have "map_of (cacheOf c2 w3) (keyOf c2) = Some h'" using run by (rule perform_stored)
      then have again: "perform newAsset c2 w3 = (Inr h', w3)" by (rule perform_hit)
      from fresh old again show ?thesis by (simp add: run)
    qed
  qed
  from shared after show ?thesis by blast
qed


lemma splitOn_examples:
  "splitOn CHR '':'' ''GI:FOO'' = [''GI'', ''FOO'']"
  "splitOn CHR '':'' ''XDB'' = [''XDB'']"
  by simp_all

theorem memoized_subscription_shared_until_reset_witness:
  "fst (perform exampleNewAsset (SubscribeToOrderbook [''u1'', ''u2''] ''XDB'' ''GI:FOO'')
          initialNetWorker)
     = Inr 0
   \<and> fst (perform exampleNewAsset (SubscribeToOrderbook [''u1'', ''u2''] ''XDB'' ''GI:FOO'')
        (performAll exampleNewAsset [SubscribeToAccountTransactions [''u1'', ''u2''] ''GA'']
          (snd (perform exampleNewAsset (SubscribeToOrderbook [''u1'', ''u2''] ''XDB'' ''GI:FOO'')
             initialNetWorker))))
     = Inr 0
   \<and> fst (perform exampleNewAsset (SubscribeToOrderbook [''u1'', ''u2''] ''XDB'' ''GI:FOO'')
        (resetAllSubscriptions
          (performAll exampleNewAsset [SubscribeToAccountTransactions [''u1'', ''u2''] ''GA'']
            (snd (perform exampleNewAsset (SubscribeToOrderbook [''u1'', ''u2''] ''XDB'' ''GI:FOO'')
               initialNetWorker)))))
     = Inr 3"
  using memoized_subscription_shared_until_reset
    [of initialNetWorker exampleNewAsset "SubscribeToOrderbook [''u1'', ''u2''] ''XDB'' ''GI:FOO''" 0
        "snd (perform exampleNewAsset (SubscribeToOrderbook [''u1'', ''u2''] ''XDB'' ''GI:FOO'')
           initialNetWorker)"
        "SubscribeToOrderbook [''u1'', ''u2''] ''XDB'' ''GI:FOO''"
        "[SubscribeToAccountTransactions [''u1'', ''u2''] ''GA'']"]
  by (simp add: subscribe_defs fetchAccountTransactionsStart_def initialNetWorker_def
        resetAllSubscriptions_def cachesSound_def createAccountCacheKey'_def
        createOrderbookCacheKey_def parseAssetID_def exampleNewAsset_def Asset_native_def)

section \<open>One fetch queue per endpoint\<close>

text \<open>
  \<open>getFetchQueue\<close> makes the queue of an endpoint once, with concurrency 4, at most 4
  runs per interval of 1000 ms and a timeout of 10000 ms that throws, and returns that
  same queue on every later call.
\<close>

lemma getFetchQueue_once:
  "getFetchQueue endpoint w = (q, w1) \<Longrightarrow> getFetchQueue endpoint w1 = (q, w1)"
  by (auto simp: getFetchQueue_def Let_def update_conv' split: option.splits)

lemma getFetchQueue_new_configuration:
  "map_of (fetchQueuesByFrontier w) endpoint = None \<Longrightarrow>
   fst (getFetchQueue endpoint w) =
     \<lparr>queue_id = length (fetchQueuesByFrontier w), concurrency = 4, interval = 1000,
      intervalCap = 4, timeout = 10000, throwOnTimeout = True\<rparr>"
  by (simp add: getFetchQueue_def Let_def)

section \<open>The order book of an asset against itself\<close>

text \<open>
  C10. Let the selling and the buying identifier denote the same asset (both are parsed
  to it). Then \<open>fetchOrderbookRecord\<close>, called with the buying identifier on both sides,
  returns the record with no asks and no bids whose base and counter are that asset, and
  leaves the module state as it was: no endpoint is picked, no queue is fetched and no
  request is issued. \<open>subscribeToOrderbookUncached\<close> makes one observable,
  \<open>Observable.from\<close> of that one record, and changes nothing else; so does
  \<open>subscribeToOrderbook\<close> when its cache has no entry under the key.
\<close>

theorem same_asset_orderbook_is_empty:
  assumes selling: "parseAssetID newAsset sellingAsset = Inr asset"
      and buying: "parseAssetID newAsset buyingAsset = Inr asset"
  shows "fetchOrderbookRecord newAsset respond urls buyingAsset buyingAsset w
           = (Inr (createEmptyOrderbookRecord asset asset), w)
       \<and> subscribeToOrderbookUncached newAsset (urls, sellingAsset, buyingAsset) w
           = (Inr (length (observables w)),
              w\<lparr>observables := observables w
                   @ [ObservableFrom [createEmptyOrderbookRecord asset asset]]\<rparr>)
       \<and> (map_of (orderbookSubscriptionCache w)
             (createOrderbookCacheKey urls sellingAsset buyingAsset) = None \<longrightarrow>
           (\<exists>w'. subscribeToOrderbook newAsset (urls, sellingAsset, buyingAsset) w
                    = (Inr (length (observables w)), w')
              \<and> observables w'
                    = observables w @ [ObservableFrom [createEmptyOrderbookRecord asset asset]]
              \<and> requests w' = requests w
              \<and> roundRobinIndex w' = roundRobinIndex w
              \<and> fetchQueuesByFrontier w' = fetchQueuesByFrontier w))
       \<and> asks (createEmptyOrderbookRecord asset asset) = []
       \<and> bids (createEmptyOrderbookRecord asset asset) = []
       \<and> base (createEmptyOrderbookRecord asset asset) = asset
       \<and> counter (createEmptyOrderbookRecord asset asset) = asset"
proof -
  have fetched: "fetchOrderbookRecord newAsset respond urls buyingAsset buyingAsset w
      = (Inr (createEmptyOrderbookRecord asset asset), w)"
    by (simp add: fetchOrderbookRecord_def buying)
  have uncached: "subscribeToOrderbookUncached newAsset (urls, sellingAsset, buyingAsset) w
      = (Inr (length (observables w)),
         w\<lparr>observables := observables w
              @ [ObservableFrom [createEmptyOrderbookRecord asset asset]]\<rparr>)"
    by (simp add: subscribeToOrderbookUncached_def selling buying newObservable_def Let_def)
  have cached: "\<exists>w'. subscribeToOrderbook newAsset (urls, sellingAsset, buyingAsset) w
                    = (Inr (length (observables w)), w')
              \<and> observables w'
                    = observables w @ [ObservableFrom [createEmptyOrderbookRecord asset asset]]
              \<and> requests w' = requests w
              \<and> roundRobinIndex w' = roundRobinIndex w
              \<and> fetchQueuesByFrontier w' = fetchQueuesByFrontier w"
    if "map_of (orderbookSubscriptionCache w)
          (createOrderbookCacheKey urls sellingAsset buyingAsset) = None"
    using that by (simp add: subscribeToOrderbook_def cachify_def uncached)
  from fetched uncached cached show ?thesis
    by (simp add: createEmptyOrderbookRecord_def)
qed

theorem same_asset_orderbook_is_empty_witness:
  "fetchOrderbookRecord exampleNewAsset (\<lambda>request. Inl (Rejected ''offline'')) [''u1'']
       ''GI:FOO'' ''GI:FOO'' initialNetWorker
     = (Inr \<lparr>links_self_href = [], asks = [], bids = [], base = exampleAsset, counter = exampleAsset\<rparr>,
        initialNetWorker)
   \<and> fst (subscribeToOrderbook exampleNewAsset ([''u1''], ''GI:FOO'', ''GI:FOO'') initialNetWorker)
     = Inr 0
   \<and> observables (snd (subscribeToOrderbook exampleNewAsset ([''u1''], ''GI:FOO'', ''GI:FOO'')
        initialNetWorker))
     = [ObservableFrom
          [\<lparr>links_self_href = [], asks = [], bids = [], base = exampleAsset, counter = exampleAsset\<rparr>]]
   \<and> requests (snd (subscribeToOrderbook exampleNewAsset ([''u1''], ''GI:FOO'', ''GI:FOO'')
        initialNetWorker)) = []"
  using same_asset_orderbook_is_empty
    [of exampleNewAsset "''GI:FOO''" exampleAsset "''GI:FOO''"
        "\<lambda>request. Inl (Rejected ''offline'')" "[''u1'']" initialNetWorker]
  by (auto simp: parseAssetID_def exampleNewAsset_def exampleAsset_def initialNetWorker_def
        createEmptyOrderbookRecord_def)


end
